theory Spec2Isabelle
  imports Complex_Main "HOL-Library.Word"
begin

section \<open>Data model\<close>

text \<open>
  The repository holds two variants of one browser script: \<^verbatim>\<open>src/app.js\<close> (the avatar is
  redrawn slightly enlarged while speaking, the audio graph is a global built once) and
  \<^verbatim>\<open>src/unnamed/part_000\<close> (a mouth ellipse is painted over the avatar, the audio graph is
  rebuilt by every call). Functions that differ between the two take the variant as their
  first argument; everything else is shared.

  JavaScript numbers are modelled as exact rationals: rounding and overflow of doubles are
  not part of the model. Where the source divides, the model says what happens for a zero
  divisor.
\<close>

datatype variant = App_js | Part_000

datatype js_error = TypeError | IndexSizeError | InvalidCharacterError | InvalidStateError

record point =
  pt_x :: rat
  pt_y :: rat

record face_box =
  box_x :: rat
  box_y :: rat
  box_width :: rat
  box_height :: rat

text \<open>
  The detector's result as the script reads it: \<^verbatim>\<open>faceDetection.detection.box\<close> and
  \<^verbatim>\<open>faceDetection.landmarks.getMouth()\<close>, the mouth contour as an ordered list of points.
\<close>

record face_detection =
  detection_box :: face_box
  landmarks_mouth :: "point list"

record image =
  image_id :: nat
  image_width :: nat
  image_height :: nat

text \<open>
  The canvas is modelled by its size and the drawing calls that painted on it since its
  bitmap was last reset (assigning \<^verbatim>\<open>canvas.width\<close> resets the bitmap). The rasteriser is
  the platform's and is not modelled: equal call lists stand for equal bitmaps.
\<close>

datatype draw_op =
    DrawImage image rat rat rat rat rat rat rat rat
  | FillEllipse rat string rat rat rat rat

record canvas =
  canvas_width :: nat
  canvas_height :: nat
  painted :: "draw_op list"

datatype promise_state = Pending | Resolved | Rejected js_error

datatype phase = Thrown | AwaitingResume | Started

text \<open>
  What one call of \<^verbatim>\<open>playAudioWithLipSync\<close> creates: the promise it returns, the local
  \<^verbatim>\<open>animationId\<close> its closures share (\<^verbatim>\<open>undefined\<close> until the first frame is requested), the
  object URL it made, and how far its executor got.
\<close>

record session =
  promise :: promise_state
  animationId :: "nat option"
  audioUrl :: "nat option"
  progress :: phase

text \<open>
  The text a user types and the text the backend returns are JavaScript strings: sequences
  of UTF-16 code units. Fixed texts of the script and the base64 payload (which
  \<^verbatim>\<open>atob\<close> refuses unless all of it is ASCII) are written as strings of 8-bit characters.
\<close>

type_synonym js_string = "16 word list"

record chat_entry =
  role :: string
  content :: js_string

text \<open>
  The page: the script's globals, the parts of the DOM it writes, and the platform state its
  calls change (live object URLs, pending animation-frame requests). An event handler of the
  audio element is a closure of one call, named here by that call's index in \<open>sessions\<close>.
\<close>

record page =
  chatHistory :: "chat_entry list"
  avatarImage :: "image option"
  faceDetection :: "face_detection option"
  isModelLoaded :: bool
  audioContext :: bool
  avatarCanvas :: canvas
  avatarStatus :: "string \<times> string"
  placeholderHidden :: bool
  canvasHidden :: bool
  speaking :: bool
  audioPlayer_src :: "nat option"
  audioPlayer_connected :: bool
  onplay :: "nat option"
  onended :: "nat option"
  onerror :: "nat option"
  objectURLs :: "(nat \<times> 8 word list) list"
  nextURL :: nat
  frameRequests :: "(nat \<times> nat) list"
  nextHandle :: nat
  sessions :: "session list"

section \<open>FaceAnchor: drawAvatar\<close>

text \<open>
  The crop of \<^verbatim>\<open>drawAvatar\<close>: \<^verbatim>\<open>padding = box.width * 0.5\<close>,
  \<^verbatim>\<open>sx = Math.max(0, box.x - padding)\<close>, \<^verbatim>\<open>sy = Math.max(0, box.y - padding)\<close>,
  \<^verbatim>\<open>sw = box.width + padding * 2\<close>, \<^verbatim>\<open>sh = box.height + padding * 2\<close>.
\<close>

definition crop_region :: "face_box \<Rightarrow> rat \<times> rat \<times> rat \<times> rat" where
  "crop_region box =
     (let padding = box_width box * (1 / 2);
          sx = max 0 (box_x box - padding);
          sy = max 0 (box_y box - padding);
          sw = box_width box + padding * 2;
          sh = box_height box + padding * 2
      in (sx, sy, sw, sh))"

text \<open>
  \<^verbatim>\<open>ctx.drawImage\<close> with nine arguments paints nothing when the source width or height is
  zero; \<^verbatim>\<open>ctx.ellipse\<close> ignores a call with a non-finite argument and throws IndexSizeError
  for a negative radius.
\<close>

definition drawImage :: "image \<Rightarrow> rat \<Rightarrow> rat \<Rightarrow> rat \<Rightarrow> rat \<Rightarrow> rat \<Rightarrow> rat \<Rightarrow> rat \<Rightarrow> rat \<Rightarrow> canvas \<Rightarrow> canvas" where
  "drawImage img sx sy sw sh dx dy dw dh c =
     (if sw = 0 \<or> sh = 0 then c
      else c\<lparr>painted := painted c @ [DrawImage img sx sy sw sh dx dy dw dh]\<rparr>)"

text \<open>
  \<^verbatim>\<open>drawAvatar(intensity = 0)\<close>. The result is \<open>Inr\<close> the page after a normal return, or
  \<open>Inl\<close> the exception with the page as it was when thrown. In \<^verbatim>\<open>part_000\<close> the mouth
  points 14, 18, 6 and 0 are read from the mouth contour; reading \<^verbatim>\<open>.x\<close> of a missing
  element is a TypeError. With a zero \<open>sw\<close> or \<open>sh\<close> the scale factors are infinite, so
  the ellipse call has a non-finite argument and paints nothing.
\<close>

definition drawAvatar :: "variant \<Rightarrow> rat \<Rightarrow> page \<Rightarrow> (js_error \<times> page) + page" where
  "drawAvatar v intensity s =
     (case (avatarImage s, faceDetection s) of
        (Some img, Some det) \<Rightarrow>
          (let size = 200;
               c0 = \<lparr>canvas_width = size, canvas_height = size, painted = []\<rparr>;
               box = detection_box det;
               (sx, sy, sw, sh) = crop_region box
           in case v of
                App_js \<Rightarrow>
                  (let scale = 1 + intensity * (2 / 100);
                       offset = (rat_of_nat size * (scale - 1)) / 2
                   in Inr (s\<lparr>avatarCanvas :=
                        drawImage img sx sy sw sh (- offset) (- offset)
                          (rat_of_nat size * scale) (rat_of_nat size * scale) c0\<rparr>))
              | Part_000 \<Rightarrow>
                  (let c1 = drawImage img sx sy sw sh 0 0 (rat_of_nat size) (rat_of_nat size) c0;
                       s1 = s\<lparr>avatarCanvas := c1\<rparr>
                   in if intensity > 0 then
                        (let mouth = landmarks_mouth det
                         in if length mouth \<le> 18 then Inl (TypeError, s1)
                            else if sw = 0 \<or> sh = 0 then Inr s1
                            else
                              (let scaleX = rat_of_nat size / sw;
                                   scaleY = rat_of_nat size / sh;
                                   mouthCenterX = ((pt_x (mouth ! 14) + pt_x (mouth ! 18)) / 2 - sx) * scaleX;
                                   mouthCenterY = ((pt_y (mouth ! 14) + pt_y (mouth ! 18)) / 2 - sy) * scaleY;
                                   mouthWidth = (pt_x (mouth ! 6) - pt_x (mouth ! 0)) * scaleX
                               in if mouthWidth * (4 / 10) < 0 then Inl (IndexSizeError, s1)
                                  else Inr (s1\<lparr>avatarCanvas := c1\<lparr>painted := painted c1 @
                                    [FillEllipse (7 / 10) ''#1a0a0a'' mouthCenterX mouthCenterY
                                       (mouthWidth * (4 / 10)) (intensity * 10)]\<rparr>\<rparr>)))
                      else Inr s1))
      | _ \<Rightarrow> Inr s)"

section \<open>LipSyncPlayer: the sampling step\<close>

text \<open>
  \<^verbatim>\<open>analyser.fftSize = 256\<close>, so \<^verbatim>\<open>analyser.frequencyBinCount\<close> is 128 and
  \<^verbatim>\<open>new Uint8Array(analyser.frequencyBinCount)\<close> has 128 bytes.
  \<^verbatim>\<open>analyser.getByteFrequencyData(dataArray)\<close> overwrites them with the analyser's current
  bins, which the platform supplies (the argument \<open>bins\<close>).
\<close>

definition frequencyBinCount :: nat where
  "frequencyBinCount = 256 div 2"

definition getByteFrequencyData :: "(nat \<Rightarrow> 8 word) \<Rightarrow> 8 word list" where
  "getByteFrequencyData bins = map bins [0..<frequencyBinCount]"

text \<open>
  The body of \<^verbatim>\<open>animateLipSync\<close> up to the draw: the sum of the first 20 bytes, the
  average, and \<^verbatim>\<open>Math.min(average / 50, 2)\<close>.
\<close>

definition speakingIntensity :: "(nat \<Rightarrow> 8 word) \<Rightarrow> rat" where
  "speakingIntensity bins =
     (let dataArray = getByteFrequencyData bins;
          sum = foldl (\<lambda>sum i. sum + rat_of_nat (unat (dataArray ! i))) 0 [0..<20];
          average = sum / 20
      in min (average / 50) 2)"

text \<open>
  \<^verbatim>\<open>animationId = requestAnimationFrame(animateLipSync)\<close> in the closure of call \<open>k\<close>: the
  platform hands out a fresh handle and queues the callback.
\<close>

definition requestAnimationFrame :: "nat \<Rightarrow> page \<Rightarrow> page" where
  "requestAnimationFrame k s =
     (let h = nextHandle s
      in s\<lparr>nextHandle := h + 1,
           frameRequests := frameRequests s @ [(h, k)],
           sessions := (sessions s)[k := (sessions s ! k)\<lparr>animationId := Some h\<rparr>]\<rparr>)"

text \<open>
  \<^verbatim>\<open>animateLipSync\<close> of call \<open>k\<close>. An exception of \<^verbatim>\<open>drawAvatar\<close> leaves the callback
  before the next frame is requested.
\<close>

definition animateLipSync :: "variant \<Rightarrow> nat \<Rightarrow> (nat \<Rightarrow> 8 word) \<Rightarrow> page \<Rightarrow> page" where
  "animateLipSync v k bins s =
     (case drawAvatar v (speakingIntensity bins) s of
        Inl (e, s') \<Rightarrow> s'
      | Inr s' \<Rightarrow> requestAnimationFrame k s')"

section \<open>LipSyncPlayer: playAudioWithLipSync\<close>

text \<open>
  \<^verbatim>\<open>atob\<close> is the platform's forgiving base64 decoder: ASCII whitespace is dropped; when the
  length is then a multiple of 4, one or two trailing \<^verbatim>\<open>=\<close> are dropped; a length that
  leaves remainder 1 modulo 4, or a character outside the base64 alphabet, makes it throw
  InvalidCharacterError; otherwise every four characters give three bytes, and a last group
  of two or three characters gives one or two bytes.
\<close>

definition ascii_whitespace :: "char \<Rightarrow> bool" where
  "ascii_whitespace c = (of_char c \<in> {9, 10, 12, 13, 32 :: nat})"

definition sextet :: "char \<Rightarrow> nat option" where
  "sextet c =
     (let n = of_char c :: nat
      in if 65 \<le> n \<and> n \<le> 90 then Some (n - 65)
         else if 97 \<le> n \<and> n \<le> 122 then Some (n - 71)
         else if 48 \<le> n \<and> n \<le> 57 then Some (n + 4)
         else if n = 43 then Some 62
         else if n = 47 then Some 63
         else None)"

fun decode_sextets :: "nat list \<Rightarrow> nat list" where
  "decode_sextets (a # b # c # d # rest) =
     [a * 4 + b div 16, (b mod 16) * 16 + c div 4, (c mod 4) * 64 + d] @ decode_sextets rest"
| "decode_sextets [a, b, c] = [a * 4 + b div 16, (b mod 16) * 16 + c div 4]"
| "decode_sextets [a, b] = [a * 4 + b div 16]"
| "decode_sextets _ = []"

definition strip_padding :: "string \<Rightarrow> string" where
  "strip_padding d =
     (if length d mod 4 = 0 then
        (if 2 \<le> length d \<and> drop (length d - 2) d = ''=='' then take (length d - 2) d
         else if 1 \<le> length d \<and> drop (length d - 1) d = ''='' then take (length d - 1) d
         else d)
      else d)"

definition atob :: "string \<Rightarrow> js_error + nat list" where
  "atob data =
     (let d = strip_padding (filter (\<lambda>c. \<not> ascii_whitespace c) data)
      in if length d mod 4 = 1 then Inl InvalidCharacterError
         else case those (map sextet d) of
                None \<Rightarrow> Inl InvalidCharacterError
              | Some vs \<Rightarrow> Inr (decode_sextets vs))"

text \<open>
  \<^verbatim>\<open>URL.createObjectURL(blob)\<close> makes a fresh URL that stays live until it is revoked;
  \<^verbatim>\<open>cancelAnimationFrame(undefined)\<close> cancels nothing; \<^verbatim>\<open>resolve()\<close> settles a pending
  promise and does nothing to a settled one.
\<close>

definition createObjectURL :: "8 word list \<Rightarrow> page \<Rightarrow> nat \<times> page" where
  "createObjectURL blob s =
     (nextURL s, s\<lparr>objectURLs := objectURLs s @ [(nextURL s, blob)], nextURL := nextURL s + 1\<rparr>)"

definition revokeObjectURL :: "nat option \<Rightarrow> page \<Rightarrow> page" where
  "revokeObjectURL url s =
     (case url of
        None \<Rightarrow> s
      | Some u \<Rightarrow> s\<lparr>objectURLs := filter (\<lambda>(u', blob). u' \<noteq> u) (objectURLs s)\<rparr>)"

definition cancelAnimationFrame :: "nat option \<Rightarrow> page \<Rightarrow> page" where
  "cancelAnimationFrame handle s =
     (case handle of
        None \<Rightarrow> s
      | Some h \<Rightarrow> s\<lparr>frameRequests := filter (\<lambda>(h', k). h' \<noteq> h) (frameRequests s)\<rparr>)"

definition resolve :: "nat \<Rightarrow> page \<Rightarrow> page" where
  "resolve k s =
     (if k < length (sessions s) \<and> promise (sessions s ! k) = Pending
      then s\<lparr>sessions := (sessions s)[k := (sessions s ! k)\<lparr>promise := Resolved\<rparr>]\<rparr>
      else s)"

definition add_session :: "promise_state \<Rightarrow> nat option \<Rightarrow> phase \<Rightarrow> page \<Rightarrow> page" where
  "add_session p url ph s =
     s\<lparr>sessions := sessions s @
        [\<lparr>promise = p, animationId = None, audioUrl = url, progress = ph\<rparr>]\<rparr>"

text \<open>
  The end of the executor, the same in both variants: the \<^verbatim>\<open>speaking\<close> class is added, the
  three handlers of the audio element are replaced by the closures of this call, and
  \<^verbatim>\<open>audioPlayer.play()\<close> is called. What \<^verbatim>\<open>play()\<close> leads to arrives later as an event.
\<close>

definition start_playback :: "nat \<Rightarrow> page \<Rightarrow> page" where
  "start_playback k s =
     s\<lparr>speaking := True, onplay := Some k, onended := Some k, onerror := Some k\<rparr>"

text \<open>
  \<^verbatim>\<open>app.js\<close> after \<^verbatim>\<open>await audioContext.resume()\<close> (or at once when the context is not
  suspended): \<^verbatim>\<open>audioPlayer.src = audioUrl\<close>, then the end of the executor.
\<close>

definition after_resume :: "nat \<Rightarrow> page \<Rightarrow> page" where
  "after_resume k s =
     start_playback k
       (s\<lparr>audioPlayer_src := audioUrl (sessions s ! k),
          sessions := (sessions s)[k := (sessions s ! k)\<lparr>progress := Started\<rparr>]\<rparr>)"

text \<open>
  \<^verbatim>\<open>playAudioWithLipSync(base64Audio)\<close>. The promise returned is that of the session added,
  whose index is the number of sessions before the call. \<open>suspended\<close> is what
  \<^verbatim>\<open>audioContext.state === 'suspended'\<close> evaluates to (read in \<^verbatim>\<open>app.js\<close> only).

  In \<^verbatim>\<open>part_000\<close> the executor is synchronous: an exception in it rejects the promise. A media
  element can feed one source node only, so \<^verbatim>\<open>createMediaElementSource(audioPlayer)\<close> throws
  InvalidStateError from the second call on. In \<^verbatim>\<open>app.js\<close> the executor is an async function:
  an exception in it rejects the promise of the async function, which nobody holds, and the
  promise returned stays pending; the source node is made once, together with the global
  context.
\<close>

definition playAudioWithLipSync :: "variant \<Rightarrow> string \<Rightarrow> bool \<Rightarrow> page \<Rightarrow> page" where
  "playAudioWithLipSync v base64Audio suspended s =
     (let k = length (sessions s)
      in case atob base64Audio of
           Inl e \<Rightarrow>
             (case v of
                App_js \<Rightarrow> add_session Pending None Thrown s
              | Part_000 \<Rightarrow> add_session (Rejected e) None Thrown s)
         | Inr byteNumbers \<Rightarrow>
             (let byteArray = map of_nat byteNumbers :: 8 word list;
                  (url, s1) = createObjectURL byteArray s
              in case v of
                   App_js \<Rightarrow>
                     (let s2 = (if \<not> audioContext s1
                                then s1\<lparr>audioContext := True, audioPlayer_connected := True\<rparr>
                                else s1);
                          s3 = add_session Pending (Some url) AwaitingResume s2
                      in if suspended then s3 else after_resume k s3)
                 | Part_000 \<Rightarrow>
                     (let s2 = s1\<lparr>audioPlayer_src := Some url\<rparr>
                      in if audioPlayer_connected s2
                         then add_session (Rejected InvalidStateError) (Some url) Thrown s2
                         else start_playback k
                                (add_session Pending (Some url) Started
                                   (s2\<lparr>audioPlayer_connected := True\<rparr>)))))"

text \<open>The handlers installed by call \<open>k\<close> and the \<^verbatim>\<open>catch\<close> callback of its \<^verbatim>\<open>play()\<close>.\<close>

definition audioPlayer_onended :: "variant \<Rightarrow> nat \<Rightarrow> page \<Rightarrow> page" where
  "audioPlayer_onended v k s =
     (let s1 = cancelAnimationFrame (animationId (sessions s ! k)) s;
          s2 = s1\<lparr>speaking := False\<rparr>
      in case drawAvatar v 0 s2 of
           Inl (e, s3) \<Rightarrow> s3
         | Inr s3 \<Rightarrow>
             (case v of
                App_js \<Rightarrow> resolve k (revokeObjectURL (audioUrl (sessions s3 ! k)) s3)
              | Part_000 \<Rightarrow> resolve k s3))"

definition audioPlayer_onerror :: "variant \<Rightarrow> nat \<Rightarrow> page \<Rightarrow> page" where
  "audioPlayer_onerror v k s =
     (let s1 = cancelAnimationFrame (animationId (sessions s ! k)) s;
          s2 = s1\<lparr>speaking := False\<rparr>
      in case v of
           App_js \<Rightarrow> resolve k (revokeObjectURL (audioUrl (sessions s2 ! k)) s2)
         | Part_000 \<Rightarrow> resolve k s2)"

definition play_catch :: "nat \<Rightarrow> page \<Rightarrow> page" where
  "play_catch k s = resolve k (s\<lparr>speaking := False\<rparr>)"

text \<open>
  A display frame: the platform takes the handles pending at the start of the frame and, for
  each one still pending, removes the request and runs its callback.
\<close>

fun run_frame_callbacks :: "variant \<Rightarrow> (nat \<Rightarrow> 8 word) \<Rightarrow> nat list \<Rightarrow> page \<Rightarrow> page" where
  "run_frame_callbacks v bins [] s = s"
| "run_frame_callbacks v bins (h # hs) s =
     (case map_of (frameRequests s) h of
        None \<Rightarrow> run_frame_callbacks v bins hs s
      | Some k \<Rightarrow>
          run_frame_callbacks v bins hs
            (animateLipSync v k bins
               (s\<lparr>frameRequests := filter (\<lambda>(h', k'). h' \<noteq> h) (frameRequests s)\<rparr>)))"

section \<open>Avatar upload and chat\<close>

definition setAvatarStatus :: "string \<Rightarrow> string \<Rightarrow> page \<Rightarrow> page" where
  "setAvatarStatus txt type s = s\<lparr>avatarStatus := (txt, ''avatar-status '' @ type)\<rparr>"

text \<open>\<^verbatim>\<open>loadFaceApiModels\<close>, by whether loading the two models succeeds.\<close>

definition loadFaceApiModels :: "bool \<Rightarrow> page \<Rightarrow> page" where
  "loadFaceApiModels loaded s =
     (let s1 = setAvatarStatus ''Carregando modelos...'' ''loading'' s
      in if loaded
         then setAvatarStatus ''Pronto! Adicione uma foto.'' ''success'' (s1\<lparr>isModelLoaded := True\<rparr>)
         else setAvatarStatus ''Erro ao carregar modelos'' ''error'' s1)"

text \<open>
  What the platform and the detector answer to one change of the file input: no file; a file
  (its bytes) that does not load as an image; or a file that loads with a width and a
  height, for which the detector throws, finds no face, or returns a detection.
\<close>

datatype detect_result = DetectRejected | NoFace | Face face_detection

datatype load_result = LoadError | Loaded nat nat detect_result

datatype upload = NoFile | File "8 word list" load_result

text \<open>
  The \<^verbatim>\<open>change\<close> handler of \<^verbatim>\<open>avatarInput\<close>. It is an async function; before its last
  \<^verbatim>\<open>await\<close> it writes the status line and makes an object URL, everything else happens in
  the one synchronous stretch after the detection has arrived. The success text ends in a
  check mark, written here as its three UTF-8 bytes.
\<close>

definition avatarInput_change :: "variant \<Rightarrow> upload \<Rightarrow> page \<Rightarrow> page" where
  "avatarInput_change v u s =
     (case u of
        NoFile \<Rightarrow> s
      | File bytes loaded \<Rightarrow>
          if \<not> isModelLoaded s
          then setAvatarStatus ''Aguarde os modelos carregarem...'' ''error'' s
          else
            (let s1 = setAvatarStatus ''Processando imagem...'' ''loading'' s;
                 (url, s2) = createObjectURL bytes s1
             in case loaded of
                  LoadError \<Rightarrow> setAvatarStatus ''Erro ao processar imagem'' ''error'' s2
                | Loaded w h detected \<Rightarrow>
                    (case detected of
                       DetectRejected \<Rightarrow> setAvatarStatus ''Erro ao processar imagem'' ''error'' s2
                     | NoFace \<Rightarrow>
                         setAvatarStatus ''Nenhum rosto detectado. Tente outra foto.'' ''error'' s2
                     | Face detection \<Rightarrow>
                         (let img = \<lparr>image_id = url, image_width = w, image_height = h\<rparr>;
                              s3 = s2\<lparr>faceDetection := Some detection\<rparr>;
                              s4 = s3\<lparr>avatarImage := Some img\<rparr>
                          in case drawAvatar v 0 s4 of
                               Inl (e, s5) \<Rightarrow>
                                 setAvatarStatus ''Erro ao processar imagem'' ''error'' s5
                             | Inr s5 \<Rightarrow>
                                 setAvatarStatus
                                   (''Avatar configurado! '' @ [char_of (226 :: nat), char_of (156 :: nat), char_of (147 :: nat)])
                                   ''success''
                                   (s5\<lparr>placeholderHidden := True, canvasHidden := False\<rparr>)))))"

text \<open>
  \<^verbatim>\<open>String.prototype.trim\<close> strips, at both ends, the code units that are white space or
  line terminators in ECMAScript: TAB, LF, VT, FF, CR, SPACE, NO-BREAK SPACE, U+1680,
  U+2000 to U+200A, U+2028, U+2029, U+202F, U+205F, U+3000 and U+FEFF.
  \<^verbatim>\<open>xs.slice(-n)\<close> for a positive \<open>n\<close> is the last \<open>n\<close> elements, or all of them when there
  are fewer.
\<close>

definition js_whitespace :: "16 word \<Rightarrow> bool" where
  "js_whitespace c =
     (unat c \<in> {9, 10, 11, 12, 13, 32, 160, 5760, 8232, 8233, 8239, 8287, 12288, 65279} \<or>
      8192 \<le> unat c \<and> unat c \<le> 8202)"

definition trim :: "js_string \<Rightarrow> js_string" where
  "trim s = rev (dropWhile js_whitespace (rev (dropWhile js_whitespace s)))"

definition slice_last :: "nat \<Rightarrow> 'a list \<Rightarrow> 'a list" where
  "slice_last n xs = drop (length xs - n) xs"

text \<open>
  What the backend answers to one request: \<^verbatim>\<open>fetch\<close> rejects; a response that is not ok
  (its status); a body that is not JSON; or a reply with its text and its optional
  \<^verbatim>\<open>audio_base64\<close>.
\<close>

datatype chat_response = FetchRejected | NotOk nat | BadJson | Reply js_string "string option"

text \<open>
  The \<^verbatim>\<open>submit\<close> handler of \<^verbatim>\<open>chatForm\<close> up to its call of \<^verbatim>\<open>playAudioWithLipSync\<close>: the
  page it leaves, and the audio it goes on to play, if any (an empty string is falsy). The
  message list, the typing indicator and the enabling of the input are DOM plumbing and not
  modelled; \<^verbatim>\<open>chatHistory\<close> is written nowhere else.
\<close>

definition chatForm_submit :: "js_string \<Rightarrow> chat_response \<Rightarrow> page \<Rightarrow> page \<times> string option" where
  "chatForm_submit input_value response s =
     (let message = trim input_value
      in if message = [] then (s, None)
         else case response of
                Reply txt audio_base64 \<Rightarrow>
                  (let h1 = chatHistory s @ [\<lparr>role = ''user'', content = message\<rparr>];
                       h2 = h1 @ [\<lparr>role = ''assistant'', content = txt\<rparr>];
                       h3 = (if length h2 > 20 then slice_last 20 h2 else h2)
                   in (s\<lparr>chatHistory := h3\<rparr>,
                       case audio_base64 of
                         None \<Rightarrow> None
                       | Some a \<Rightarrow> if a = [] then None else Some a))
              | _ \<Rightarrow> (s, None))"

section \<open>The page as an event-driven machine\<close>

text \<open>
  The script runs on one thread: between two events nothing happens, and a handler runs to
  its end (or to its next \<^verbatim>\<open>await\<close>) before the next event is taken. An event is a call
  made by the page or something the platform delivers:
  \<^item> the models finish loading, or fail;
  \<^item> the file input changes;
  \<^item> a chat exchange completes (with the flag \<^verbatim>\<open>playAudioWithLipSync\<close> reads);
  \<^item> \<^verbatim>\<open>playAudioWithLipSync\<close> is called;
  \<^item> the awaited \<^verbatim>\<open>audioContext.resume()\<close> of a call is fulfilled;
  \<^item> the audio element fires \<^verbatim>\<open>play\<close>, \<^verbatim>\<open>ended\<close> or \<^verbatim>\<open>error\<close>, which goes to the handler
    installed at that moment;
  \<^item> the promise of the \<^verbatim>\<open>play()\<close> of a call is rejected;
  \<^item> a display frame, which runs the pending animation-frame callbacks.
  The events that sample audio carry the analyser's bins at that moment. Which events the
  platform delivers, and when, is not constrained by the model.
\<close>

datatype event =
    ModelsLoaded bool
  | AvatarChange upload
  | ChatSubmit js_string chat_response bool
  | PlayAudio string bool
  | ResumeFulfilled nat
  | AudioPlay "nat \<Rightarrow> 8 word"
  | AudioEnded
  | AudioError
  | PlayRejected nat
  | AnimationFrame "nat \<Rightarrow> 8 word"

fun step :: "variant \<Rightarrow> event \<Rightarrow> page \<Rightarrow> page" where
  "step v (ModelsLoaded loaded) s = loadFaceApiModels loaded s"
| "step v (AvatarChange u) s = avatarInput_change v u s"
| "step v (ChatSubmit input_value response suspended) s =
     (case chatForm_submit input_value response s of
        (s', None) \<Rightarrow> s'
      | (s', Some a) \<Rightarrow> playAudioWithLipSync v a suspended s')"
| "step v (PlayAudio base64Audio suspended) s = playAudioWithLipSync v base64Audio suspended s"
| "step v (ResumeFulfilled k) s =
     (if k < length (sessions s) \<and> progress (sessions s ! k) = AwaitingResume
      then after_resume k s else s)"
| "step v (AudioPlay bins) s =
     (case onplay s of None \<Rightarrow> s | Some k \<Rightarrow> animateLipSync v k bins s)"
| "step v AudioEnded s =
     (case onended s of None \<Rightarrow> s | Some k \<Rightarrow> audioPlayer_onended v k s)"
| "step v AudioError s =
     (case onerror s of None \<Rightarrow> s | Some k \<Rightarrow> audioPlayer_onerror v k s)"
| "step v (PlayRejected k) s =
     (if k < length (sessions s) \<and> progress (sessions s ! k) = Started
      then play_catch k s else s)"
| "step v (AnimationFrame bins) s = run_frame_callbacks v bins (map fst (frameRequests s)) s"

fun run :: "variant \<Rightarrow> event list \<Rightarrow> page \<Rightarrow> page" where
  "run v [] s = s"
| "run v (e # es) s = run v es (step v e s)"

section \<open>The page when the script has loaded\<close>

text \<open>
  The script's initial globals. The HTML is not part of the sources: the canvas has the
  default size of a canvas element, the status line is taken to be empty and the canvas
  hidden.
\<close>

definition initial_page :: page where
  "initial_page =
     \<lparr>chatHistory = [], avatarImage = None, faceDetection = None, isModelLoaded = False,
      audioContext = False,
      avatarCanvas = \<lparr>canvas_width = 300, canvas_height = 150, painted = []\<rparr>,
      avatarStatus = ([], []), placeholderHidden = False, canvasHidden = True,
      speaking = False, audioPlayer_src = None, audioPlayer_connected = False,
      onplay = None, onended = None, onerror = None,
      objectURLs = [], nextURL = 0, frameRequests = [], nextHandle = 1, sessions = []\<rparr>"

text \<open>
  An example: a photo of 400 by 400 pixels with a face box of 100 by 100 at (100, 100), and
  the page after the models have loaded and that photo has been uploaded.
\<close>

definition example_mouth :: "point list" where
  "example_mouth =
     [\<lparr>pt_x = 120, pt_y = 170\<rparr>, \<lparr>pt_x = 130, pt_y = 165\<rparr>, \<lparr>pt_x = 140, pt_y = 162\<rparr>,
      \<lparr>pt_x = 150, pt_y = 163\<rparr>, \<lparr>pt_x = 160, pt_y = 162\<rparr>, \<lparr>pt_x = 170, pt_y = 165\<rparr>,
      \<lparr>pt_x = 180, pt_y = 170\<rparr>, \<lparr>pt_x = 170, pt_y = 180\<rparr>, \<lparr>pt_x = 160, pt_y = 186\<rparr>,
      \<lparr>pt_x = 150, pt_y = 188\<rparr>, \<lparr>pt_x = 140, pt_y = 186\<rparr>, \<lparr>pt_x = 130, pt_y = 180\<rparr>,
      \<lparr>pt_x = 125, pt_y = 170\<rparr>, \<lparr>pt_x = 140, pt_y = 166\<rparr>, \<lparr>pt_x = 150, pt_y = 165\<rparr>,
      \<lparr>pt_x = 160, pt_y = 166\<rparr>, \<lparr>pt_x = 175, pt_y = 170\<rparr>, \<lparr>pt_x = 160, pt_y = 184\<rparr>,
      \<lparr>pt_x = 150, pt_y = 185\<rparr>, \<lparr>pt_x = 140, pt_y = 184\<rparr>]"

definition example_image :: image where
  "example_image = \<lparr>image_id = 0, image_width = 400, image_height = 400\<rparr>"

definition example_detection :: face_detection where
  "example_detection =
     \<lparr>detection_box = \<lparr>box_x = 100, box_y = 100, box_width = 100, box_height = 100\<rparr>,
      landmarks_mouth = example_mouth\<rparr>"

definition example_file :: "8 word list" where
  "example_file = [255, 216, 255]"

definition example_page :: page where
  "example_page =
     run App_js
       [ModelsLoaded True,
        AvatarChange (File example_file (Loaded 400 400 (Face example_detection)))]
       initial_page"

text \<open>A second photo, of 300 by 300 pixels, with a face box of 80 by 90 at (50, 60).\<close>

definition second_file :: "8 word list" where
  "second_file = [137, 80, 78, 71]"

definition second_detection :: face_detection where
  "second_detection =
     \<lparr>detection_box = \<lparr>box_x = 50, box_y = 60, box_width = 80, box_height = 90\<rparr>,
      landmarks_mouth = example_mouth\<rparr>"

text \<open>The page a call of \<^verbatim>\<open>drawAvatar\<close> leaves behind, returned or thrown.\<close>

definition page_after :: "(js_error \<times> page) + page \<Rightarrow> page" where
  "page_after r = (case r of Inl (e, s) \<Rightarrow> s | Inr s \<Rightarrow> s)"

text \<open>
  Stated from the specification, for comparison with the code: a source region
  \<open>(sx, sy, sw, sh)\<close> that lies inside the image.
\<close>

definition region_within_image :: "image \<Rightarrow> rat \<times> rat \<times> rat \<times> rat \<Rightarrow> bool" where
  "region_within_image img r =
     (case r of (sx, sy, sw, sh) \<Rightarrow>
        0 \<le> sx \<and> 0 \<le> sy \<and> sx + sw \<le> rat_of_nat (image_width img) \<and>
        sy + sh \<le> rat_of_nat (image_height img))"

text \<open>
  Stated from the specification, for comparison with the code: the ellipse centre as the
  midpoint of the two mouth corners, the points 0 and 6 of the mouth contour from which the
  code takes the mouth width, in canvas coordinates.
\<close>

definition corner_midpoint_centre :: "face_detection \<Rightarrow> rat \<times> rat" where
  "corner_midpoint_centre det =
     (case crop_region (detection_box det) of (sx, sy, sw, sh) \<Rightarrow>
        (((pt_x (landmarks_mouth det ! 0) + pt_x (landmarks_mouth det ! 6)) / 2 - sx) * (200 / sw),
         ((pt_y (landmarks_mouth det ! 0) + pt_y (landmarks_mouth det ! 6)) / 2 - sy) * (200 / sh)))"

text \<open>
  Stated from the claim, for comparison with the code: the entries a completed chat
  exchange adds to the history, and all entries of a sequence of events in order.
\<close>

fun exchange_entries :: "event \<Rightarrow> chat_entry list" where
  "exchange_entries (ChatSubmit input_value (Reply txt audio_base64) suspended) =
     (if trim input_value = [] then []
      else [\<lparr>role = ''user'', content = trim input_value\<rparr>,
            \<lparr>role = ''assistant'', content = txt\<rparr>])"
| "exchange_entries _ = []"

definition exchanges :: "event list \<Rightarrow> chat_entry list" where
  "exchanges evs = concat (map exchange_entries evs)"

text \<open>
  A call whose executor threw before it installed anything: no handler of the audio element
  and no pending animation-frame request belongs to it.
\<close>

definition untouched :: "nat \<Rightarrow> page \<Rightarrow> bool" where
  "untouched k s =
     (k < length (sessions s) \<and> progress (sessions s ! k) = Thrown \<and>
      onplay s \<noteq> Some k \<and> onended s \<noteq> Some k \<and> onerror s \<noteq> Some k \<and>
      k \<notin> snd ` set (frameRequests s))"

text \<open>
  How the promise of call \<open>k\<close> can differ between a page and a later one: not at all, or
  it was pending and is now resolved.
\<close>

definition settles_forward :: "nat \<Rightarrow> page \<Rightarrow> page \<Rightarrow> bool" where
  "settles_forward k s s' =
     (length (sessions s) \<le> length (sessions s') \<and>
      (promise (sessions s' ! k) = promise (sessions s ! k) \<or>
       promise (sessions s ! k) = Pending \<and> promise (sessions s' ! k) = Resolved))"

text \<open>
  Every handler of the audio element and every pending animation-frame request belongs to
  a call that has been made.
\<close>

definition closures_exist :: "page \<Rightarrow> bool" where
  "closures_exist s =
     (list_all (\<lambda>k. k < length (sessions s)) (map snd (frameRequests s)) \<and>
      pred_option (\<lambda>k. k < length (sessions s)) (onplay s) \<and>
      pred_option (\<lambda>k. k < length (sessions s)) (onended s) \<and>
      pred_option (\<lambda>k. k < length (sessions s)) (onerror s))"

section \<open>Properties of drawAvatar\<close>

lemma drawAvatar_unset:
  "avatarImage s = None \<or> faceDetection s = None \<Longrightarrow> drawAvatar v i s = Inr s"
  by (auto simp: drawAvatar_def split: option.splits)

lemma crop_region_eq:
  "crop_region box =
     (max 0 (box_x box - box_width box / 2), max 0 (box_y box - box_width box / 2),
      2 * box_width box, box_height box + box_width box)"
  by (simp add: crop_region_def Let_def)

lemma drawAvatar_App_js:
  assumes "avatarImage s = Some img" "faceDetection s = Some det"
  shows "drawAvatar App_js i s =
     Inr (s\<lparr>avatarCanvas :=
       drawImage img (max 0 (box_x (detection_box det) - box_width (detection_box det) / 2))
         (max 0 (box_y (detection_box det) - box_width (detection_box det) / 2))
         (2 * box_width (detection_box det))
         (box_height (detection_box det) + box_width (detection_box det))
         (- (200 * (i / 50) / 2)) (- (200 * (i / 50) / 2))
         (200 * (1 + i / 50)) (200 * (1 + i / 50))
         \<lparr>canvas_width = 200, canvas_height = 200, painted = []\<rparr>\<rparr>)"
  using assms by (simp add: drawAvatar_def crop_region_eq Let_def)

lemma drawAvatar_zero_returns:
  "\<exists>s'. drawAvatar v 0 s = Inr s'"
  by (cases v) (auto simp: drawAvatar_def Let_def split: option.splits prod.splits)

text \<open>
  C3. Whatever the intensity, \<^verbatim>\<open>drawAvatar\<close> called while \<^verbatim>\<open>avatarImage\<close> or
  \<^verbatim>\<open>faceDetection\<close> is unset returns normally and leaves the whole page, the canvas
  included, as it was. This holds in both variants.
\<close>

theorem drawAvatar_noop_without_avatar:
  "avatarImage s = None \<or> faceDetection s = None \<Longrightarrow> drawAvatar v i s = Inr s"
  by (rule drawAvatar_unset)

theorem drawAvatar_noop_without_avatar_witness:
  "avatarImage initial_page = None \<and>
   drawAvatar App_js 2 initial_page = Inr initial_page \<and>
   faceDetection (initial_page\<lparr>avatarImage := Some example_image\<rparr>) = None \<and>
   drawAvatar Part_000 1 (initial_page\<lparr>avatarImage := Some example_image\<rparr>) =
     Inr (initial_page\<lparr>avatarImage := Some example_image\<rparr>)"
  using drawAvatar_noop_without_avatar [of initial_page App_js 2]
    drawAvatar_noop_without_avatar [of "initial_page\<lparr>avatarImage := Some example_image\<rparr>" Part_000 1]
  by (simp add: initial_page_def)

lemma drawAvatar_Part_000_overlay:
  assumes "avatarImage s = Some img" "faceDetection s = Some det" "0 < i"
    and "18 < length (landmarks_mouth det)"
    and "0 < box_width (detection_box det)"
    and "0 < box_height (detection_box det)"
    and "pt_x (landmarks_mouth det ! 0) \<le> pt_x (landmarks_mouth det ! 6)"
  shows "drawAvatar Part_000 i s =
     Inr (s\<lparr>avatarCanvas :=
       \<lparr>canvas_width = 200, canvas_height = 200,
        painted =
          [DrawImage img
             (max 0 (box_x (detection_box det) - box_width (detection_box det) / 2))
             (max 0 (box_y (detection_box det) - box_width (detection_box det) / 2))
             (2 * box_width (detection_box det))
             (box_height (detection_box det) + box_width (detection_box det))
             0 0 200 200,
           FillEllipse (7 / 10) ''#1a0a0a''
             (((pt_x (landmarks_mouth det ! 14) + pt_x (landmarks_mouth det ! 18)) / 2 -
                max 0 (box_x (detection_box det) - box_width (detection_box det) / 2)) *
              (200 / (2 * box_width (detection_box det))))
             (((pt_y (landmarks_mouth det ! 14) + pt_y (landmarks_mouth det ! 18)) / 2 -
                max 0 (box_y (detection_box det) - box_width (detection_box det) / 2)) *
              (200 / (box_height (detection_box det) + box_width (detection_box det))))
             ((pt_x (landmarks_mouth det ! 6) - pt_x (landmarks_mouth det ! 0)) *
              (200 / (2 * box_width (detection_box det))) * (4 / 10))
             (i * 10)]\<rparr>\<rparr>)"
proof -
  have sh: "box_height (detection_box det) + box_width (detection_box det) \<noteq> 0"
    using assms(5,6) by simp
  show ?thesis
    using assms sh
    by (simp add: drawAvatar_def crop_region_eq Let_def drawImage_def not_le not_less
        divide_less_0_iff zero_le_divide_iff)
qed

lemma example_page_eq:
  "example_page =
     initial_page\<lparr>isModelLoaded := True,
       avatarStatus :=
         (''Avatar configurado! '' @ [char_of (226 :: nat), char_of (156 :: nat), char_of (147 :: nat)],
          ''avatar-status success''),
       objectURLs := [(0, example_file)], nextURL := 1,
       faceDetection := Some example_detection, avatarImage := Some example_image,
       avatarCanvas :=
         \<lparr>canvas_width = 200, canvas_height = 200,
          painted = [DrawImage example_image 50 50 200 200 0 0 200 200]\<rparr>,
       placeholderHidden := True, canvasHidden := False\<rparr>"
  by (simp add: example_page_def loadFaceApiModels_def avatarInput_change_def
      setAvatarStatus_def createObjectURL_def drawAvatar_def crop_region_def drawImage_def
      Let_def initial_page_def example_image_def example_detection_def)

lemma example_page_either_variant:
  "run Part_000
     [ModelsLoaded True,
      AvatarChange (File example_file (Loaded 400 400 (Face example_detection)))]
     initial_page = example_page"
  unfolding example_page_eq
  by (simp add: loadFaceApiModels_def avatarInput_change_def
      setAvatarStatus_def createObjectURL_def drawAvatar_def crop_region_def drawImage_def
      Let_def initial_page_def example_image_def example_detection_def)

lemma example_page_fields:
  "avatarImage example_page = Some example_image"
  "faceDetection example_page = Some example_detection"
  by (simp_all add: example_page_eq)

lemma example_detection_fields:
  "detection_box example_detection =
     \<lparr>box_x = 100, box_y = 100, box_width = 100, box_height = 100\<rparr>"
  "landmarks_mouth example_detection = example_mouth"
  by (simp_all add: example_detection_def)

lemma example_mouth_points:
  "length example_mouth = 20"
  "example_mouth ! 0 = \<lparr>pt_x = 120, pt_y = 170\<rparr>"
  "example_mouth ! 6 = \<lparr>pt_x = 180, pt_y = 170\<rparr>"
  "example_mouth ! 14 = \<lparr>pt_x = 150, pt_y = 165\<rparr>"
  "example_mouth ! 18 = \<lparr>pt_x = 150, pt_y = 185\<rparr>"
  by (simp_all add: example_mouth_def)

lemma example_overlay:
  "0 < i \<Longrightarrow> drawAvatar Part_000 i example_page =
     Inr (example_page\<lparr>avatarCanvas :=
       \<lparr>canvas_width = 200, canvas_height = 200,
        painted = [DrawImage example_image 50 50 200 200 0 0 200 200,
                   FillEllipse (7 / 10) ''#1a0a0a'' 100 125 24 (i * 10)]\<rparr>\<rparr>)"
  using drawAvatar_Part_000_overlay [OF example_page_fields, of i]
  by (simp add: example_detection_fields example_mouth_points)

lemma example_scale:
  "drawAvatar App_js i example_page =
     Inr (example_page\<lparr>avatarCanvas :=
       \<lparr>canvas_width = 200, canvas_height = 200,
        painted = [DrawImage example_image 50 50 200 200 (- (2 * i)) (- (2 * i))
                     (200 + 4 * i) (200 + 4 * i)]\<rparr>\<rparr>)"
  using drawAvatar_App_js [OF example_page_fields, of i]
  by (simp add: example_detection_fields drawImage_def algebra_simps)

lemma painted_Part_000:
  assumes "avatarImage s = Some img" "faceDetection s = Some det"
    and "0 < box_width (detection_box det)" "0 < box_height (detection_box det)"
  shows "\<exists>rest. painted (avatarCanvas (page_after (drawAvatar Part_000 i s))) =
     DrawImage img (max 0 (box_x (detection_box det) - box_width (detection_box det) / 2))
       (max 0 (box_y (detection_box det) - box_width (detection_box det) / 2))
       (2 * box_width (detection_box det))
       (box_height (detection_box det) + box_width (detection_box det))
       0 0 200 200 # rest"
proof -
  have sh: "box_height (detection_box det) + box_width (detection_box det) \<noteq> 0"
    using assms(3,4) by simp
  show ?thesis
    using assms sh
    by (simp add: drawAvatar_def crop_region_eq Let_def drawImage_def page_after_def)
qed

lemma painted_App_js:
  assumes "avatarImage s = Some img" "faceDetection s = Some det"
    and "0 < box_width (detection_box det)" "0 < box_height (detection_box det)"
  shows "painted (avatarCanvas (page_after (drawAvatar App_js i s))) =
     [DrawImage img (max 0 (box_x (detection_box det) - box_width (detection_box det) / 2))
       (max 0 (box_y (detection_box det) - box_width (detection_box det) / 2))
       (2 * box_width (detection_box det))
       (box_height (detection_box det) + box_width (detection_box det))
       (- (200 * (i / 50) / 2)) (- (200 * (i / 50) / 2))
       (200 * (1 + i / 50)) (200 * (1 + i / 50))]"
proof -
  have sh: "box_height (detection_box det) + box_width (detection_box det) \<noteq> 0"
    using assms(3,4) by simp
  show ?thesis
    using assms(3) sh
    by (simp add: drawAvatar_App_js [OF assms(1,2)] drawImage_def page_after_def)
qed

section \<open>Properties of the sampling step\<close>

lemma foldl_add_upt:
  "foldl (\<lambda>sum i. sum + f i) a [0..<n] = a + (\<Sum>i<n. f i :: rat)"
  by (induction n) simp_all

lemma getByteFrequencyData_nth:
  "i < 128 \<Longrightarrow> getByteFrequencyData bins ! i = bins i"
  by (simp add: getByteFrequencyData_def frequencyBinCount_def)

lemma speakingIntensity_eq:
  "speakingIntensity bins = min ((\<Sum>i<20. rat_of_nat (unat (bins i))) / 20 / 50) 2"
proof -
  have "foldl (\<lambda>sum i. sum + rat_of_nat (unat (getByteFrequencyData bins ! i))) 0 [0..<20] =
        foldl (\<lambda>sum i. sum + rat_of_nat (unat (bins i))) 0 [0..<20]"
    by (rule foldl_cong) (simp_all add: getByteFrequencyData_nth)
  then show ?thesis
    by (simp add: speakingIntensity_def Let_def foldl_add_upt)
qed

lemma speakingIntensity_le_cap: "speakingIntensity bins \<le> 2"
  by (simp add: speakingIntensity_eq)

lemma speakingIntensity_const:
  "speakingIntensity (\<lambda>_. b) = min (rat_of_nat (unat b) / 50) 2"
  by (simp add: speakingIntensity_eq)

section \<open>The claims about drawAvatar and the sampling step\<close>

text \<open>
  C2, as stated: for every intensity at or above the cap of 2, \<^verbatim>\<open>drawAvatar\<close> paints what
  \<^verbatim>\<open>drawAvatar(2)\<close> paints. The code has no clamp in \<^verbatim>\<open>drawAvatar\<close>: for the example photo,
  intensity 3 and intensity 2 give different drawing calls in both variants (another
  destination rectangle in \<^verbatim>\<open>app.js\<close>, another vertical radius in \<^verbatim>\<open>part_000\<close>).
\<close>

theorem drawAvatar_not_clamped:
  "(2 :: rat) \<le> 3 \<and>
   painted (avatarCanvas (page_after (drawAvatar App_js 3 example_page))) =
     [DrawImage example_image 50 50 200 200 (- 6) (- 6) 212 212] \<and>
   painted (avatarCanvas (page_after (drawAvatar App_js 2 example_page))) =
     [DrawImage example_image 50 50 200 200 (- 4) (- 4) 208 208] \<and>
   painted (avatarCanvas (page_after (drawAvatar Part_000 3 example_page))) =
     [DrawImage example_image 50 50 200 200 0 0 200 200,
      FillEllipse (7 / 10) ''#1a0a0a'' 100 125 24 30] \<and>
   painted (avatarCanvas (page_after (drawAvatar Part_000 2 example_page))) =
     [DrawImage example_image 50 50 200 200 0 0 200 200,
      FillEllipse (7 / 10) ''#1a0a0a'' 100 125 24 20] \<and>
   drawAvatar App_js 3 example_page \<noteq> drawAvatar App_js 2 example_page \<and>
   drawAvatar Part_000 3 example_page \<noteq> drawAvatar Part_000 2 example_page"
  by (simp add: example_scale example_overlay page_after_def)
    (simp add: example_page_eq initial_page_def)

text \<open>
  C2, amended: the clamp is the \<^verbatim>\<open>Math.min(average / 50, 2)\<close> of the sampling step, not a part
  of \<^verbatim>\<open>drawAvatar\<close>. The sampling step never passes more than 2, and for every frame whose
  unclamped value \<open>average / 50\<close> is at least 2 it draws exactly what \<^verbatim>\<open>drawAvatar(2)\<close> draws.
\<close>

theorem sampling_step_clamps:
  "speakingIntensity bins \<le> 2 \<and>
   (2 \<le> (\<Sum>i<20. rat_of_nat (unat (bins i))) / 20 / 50 \<longrightarrow>
      speakingIntensity bins = 2 \<and>
      drawAvatar v (speakingIntensity bins) s = drawAvatar v 2 s \<and>
      animateLipSync v k bins s =
        (case drawAvatar v 2 s of Inl (e, s') \<Rightarrow> s' | Inr s' \<Rightarrow> requestAnimationFrame k s'))"
  by (simp add: speakingIntensity_le_cap animateLipSync_def) (simp add: speakingIntensity_eq)

theorem sampling_step_clamps_witness:
  "2 \<le> (\<Sum>i<20. rat_of_nat (unat ((\<lambda>_ :: nat. 255 :: 8 word) i))) / 20 / 50 \<and>
   speakingIntensity (\<lambda>_. 255) = 2 \<and>
   drawAvatar App_js (speakingIntensity (\<lambda>_. 255)) example_page = drawAvatar App_js 2 example_page \<and>
   painted (avatarCanvas (page_after (drawAvatar App_js (speakingIntensity (\<lambda>_. 255)) example_page))) =
     [DrawImage example_image 50 50 200 200 (- 4) (- 4) 208 208]"
  using sampling_step_clamps [of "\<lambda>_. 255" App_js example_page 0]
  by (simp add: example_scale page_after_def)

text \<open>
  C4. Every run of \<^verbatim>\<open>animateLipSync\<close> calls \<^verbatim>\<open>drawAvatar\<close> with
  \<open>min (sum of the first 20 bins / 20 / 50) 2\<close>; when the average of the first 20 bins is
  100 that is exactly 2, and when they are all zero it is 0.
\<close>

theorem sampling_step_intensity:
  "speakingIntensity bins = min ((\<Sum>i<20. rat_of_nat (unat (bins i))) / 20 / 50) 2 \<and>
   animateLipSync v k bins s =
     (case drawAvatar v (min ((\<Sum>i<20. rat_of_nat (unat (bins i))) / 20 / 50) 2) s of
        Inl (e, s') \<Rightarrow> s'
      | Inr s' \<Rightarrow> requestAnimationFrame k s') \<and>
   ((\<Sum>i<20. rat_of_nat (unat (bins i))) / 20 = 100 \<longrightarrow> speakingIntensity bins = 2) \<and>
   ((\<forall>i<20. bins i = 0) \<longrightarrow> speakingIntensity bins = 0)"
  by (simp add: animateLipSync_def speakingIntensity_eq)

theorem sampling_step_intensity_witness:
  "(\<Sum>i<20. rat_of_nat (unat ((\<lambda>_ :: nat. 100 :: 8 word) i))) / 20 = 100 \<and>
   speakingIntensity (\<lambda>_. 100) = 2 \<and>
   speakingIntensity (\<lambda>_. 0) = 0 \<and>
   speakingIntensity (\<lambda>_. 50) = 1"
  using sampling_step_intensity [of "\<lambda>_. 100" App_js 0 example_page]
    sampling_step_intensity [of "\<lambda>_. 0" App_js 0 example_page]
    sampling_step_intensity [of "\<lambda>_. 50" App_js 0 example_page]
  by simp

text \<open>
  C5, as stated: the source region never reaches outside the image. The code clamps the
  origin only. For the 400 by 400 example photo and a face box of 100 by 100 at (300, 300),
  which lies inside the photo, \<^verbatim>\<open>drawAvatar\<close> asks for the region of 200 by 200 at
  (250, 250), whose right and bottom extents are 450.
\<close>

theorem crop_region_leaves_image:
  "crop_region \<lparr>box_x = 300, box_y = 300, box_width = 100, box_height = 100\<rparr> =
     (250, 250, 200, 200) \<and>
   \<not> region_within_image example_image
       (crop_region \<lparr>box_x = 300, box_y = 300, box_width = 100, box_height = 100\<rparr>) \<and>
   painted (avatarCanvas (page_after (drawAvatar App_js 0
     (example_page\<lparr>faceDetection := Some (example_detection\<lparr>detection_box :=
        \<lparr>box_x = 300, box_y = 300, box_width = 100, box_height = 100\<rparr>\<rparr>)\<rparr>)))) =
     [DrawImage example_image 250 250 200 200 0 0 200 200] \<and>
   painted (avatarCanvas (page_after (drawAvatar Part_000 0
     (example_page\<lparr>faceDetection := Some (example_detection\<lparr>detection_box :=
        \<lparr>box_x = 300, box_y = 300, box_width = 100, box_height = 100\<rparr>\<rparr>)\<rparr>)))) =
     [DrawImage example_image 250 250 200 200 0 0 200 200]"
  by (simp add: crop_region_eq region_within_image_def example_image_def drawAvatar_def
      Let_def drawImage_def page_after_def example_page_eq)

text \<open>
  C5, amended: for a face box of positive width and height, with
  \<open>padding = box.width / 2\<close>, \<^verbatim>\<open>drawAvatar\<close> draws from the source region
  with origin \<open>(max 0 (x - padding), max 0 (y - padding))\<close> and size
  \<open>(width + 2 padding, height + 2 padding)\<close>. The origin is never negative, and on each axis
  where it is not clamped the region is the box extended by the padding on both sides.
\<close>

theorem crop_region_origin_clamped:
  assumes "avatarImage s = Some img" "faceDetection s = Some det"
    and "detection_box det = box" "0 < box_width box" "0 < box_height box"
    and "padding = box_width box / 2"
  shows "\<exists>sx sy sw sh dx dy dw dh rest.
     crop_region box = (sx, sy, sw, sh) \<and>
     painted (avatarCanvas (page_after (drawAvatar v i s))) =
       DrawImage img sx sy sw sh dx dy dw dh # rest \<and>
     sx = max 0 (box_x box - padding) \<and> sy = max 0 (box_y box - padding) \<and>
     sw = box_width box + 2 * padding \<and> sh = box_height box + 2 * padding \<and>
     0 \<le> sx \<and> 0 \<le> sy \<and>
     (padding \<le> box_x box \<longrightarrow>
        sx = box_x box - padding \<and> sx + sw = box_x box + box_width box + padding) \<and>
     (padding \<le> box_y box \<longrightarrow>
        sy = box_y box - padding \<and> sy + sh = box_y box + box_height box + padding)"
proof (cases v)
  case App_js
  show ?thesis
    unfolding App_js painted_App_js [OF assms(1,2) assms(4,5) [folded assms(3)]] assms(6)
    using assms(3) by (simp add: crop_region_eq)
next
  case Part_000
  from painted_Part_000 [OF assms(1,2) assms(4,5) [folded assms(3)], of i]
  obtain rest where "painted (avatarCanvas (page_after (drawAvatar Part_000 i s))) =
     DrawImage img (max 0 (box_x (detection_box det) - box_width (detection_box det) / 2))
       (max 0 (box_y (detection_box det) - box_width (detection_box det) / 2))
       (2 * box_width (detection_box det))
       (box_height (detection_box det) + box_width (detection_box det))
       0 0 200 200 # rest" ..
  then show ?thesis
    unfolding Part_000 assms(6) using assms(3) by (simp add: crop_region_eq)
qed

theorem crop_region_origin_clamped_witness:
  "avatarImage example_page = Some example_image \<and>
   faceDetection example_page = Some example_detection \<and>
   (0 :: rat) < 100 \<and> (50 :: rat) \<le> 100 \<and>
   (\<exists>sx sy sw sh dx dy dw dh rest.
      crop_region \<lparr>box_x = 100, box_y = 100, box_width = 100, box_height = 100\<rparr> =
        (sx, sy, sw, sh) \<and>
      painted (avatarCanvas (page_after (drawAvatar Part_000 1 example_page))) =
        DrawImage example_image sx sy sw sh dx dy dw dh # rest \<and>
      sx = 50 \<and> sy = 50 \<and> sw = 200 \<and> sh = 200 \<and> sx + sw = 250 \<and> sy + sh = 250)"
  using crop_region_origin_clamped [OF example_page_fields example_detection_fields(1),
      of "50" Part_000 1]
  by (simp add: example_page_fields)

text \<open>
  C7, as stated: the ellipse is centred on the midpoint of the two mouth corners, the same
  two points the width is taken from. The code takes the width from the points 0 and 6 of
  the mouth contour and the centre from the points 14 and 18. For the example face the
  ellipse is centred at (100, 125), the midpoint of the corners is at (100, 120).
\<close>

theorem ellipse_centre_not_corner_midpoint:
  "painted (avatarCanvas (page_after (drawAvatar Part_000 1 example_page))) =
     [DrawImage example_image 50 50 200 200 0 0 200 200,
      FillEllipse (7 / 10) ''#1a0a0a'' 100 125 24 10] \<and>
   corner_midpoint_centre example_detection = (100, 120) \<and>
   corner_midpoint_centre example_detection \<noteq> (100, 125)"
  by (simp add: example_overlay page_after_def corner_midpoint_centre_def crop_region_eq
      example_detection_fields example_mouth_points)

text \<open>
  C7, amended: in the overlay variant, for an intensity above 0, a mouth contour with the
  points the code reads and a face box of positive size, the ellipse is centred on the
  midpoint of the mouth points 14 and 18, mapped to canvas coordinates; its horizontal
  radius is 0.4 times the mouth width, which is the horizontal distance of the mouth points
  0 and 6 scaled to the canvas; its vertical radius is 10 times the intensity.
\<close>

theorem ellipse_from_landmarks:
  assumes "avatarImage s = Some img" "faceDetection s = Some det" "0 < i"
    and "landmarks_mouth det = mouth" "18 < length mouth"
    and "0 < box_width (detection_box det)" "0 < box_height (detection_box det)"
    and "pt_x (mouth ! 0) \<le> pt_x (mouth ! 6)"
    and "crop_region (detection_box det) = (sx, sy, sw, sh)"
  shows "drawAvatar Part_000 i s =
     Inr (s\<lparr>avatarCanvas :=
       \<lparr>canvas_width = 200, canvas_height = 200,
        painted =
          [DrawImage img sx sy sw sh 0 0 200 200,
           FillEllipse (7 / 10) ''#1a0a0a''
             (((pt_x (mouth ! 14) + pt_x (mouth ! 18)) / 2 - sx) * (200 / sw))
             (((pt_y (mouth ! 14) + pt_y (mouth ! 18)) / 2 - sy) * (200 / sh))
             ((pt_x (mouth ! 6) - pt_x (mouth ! 0)) * (200 / sw) * (4 / 10))
             (i * 10)]\<rparr>\<rparr>)"
proof -
  have c: "sx = max 0 (box_x (detection_box det) - box_width (detection_box det) / 2)"
    "sy = max 0 (box_y (detection_box det) - box_width (detection_box det) / 2)"
    "sw = 2 * box_width (detection_box det)"
    "sh = box_height (detection_box det) + box_width (detection_box det)"
    using assms(9) by (simp_all add: crop_region_eq)
  show ?thesis
    unfolding c
    by (rule drawAvatar_Part_000_overlay [OF assms(1,2,3), unfolded assms(4),
          OF assms(5,6,7,8)])
qed

theorem ellipse_from_landmarks_witness:
  "avatarImage example_page = Some example_image \<and>
   faceDetection example_page = Some example_detection \<and>
   18 < length example_mouth \<and>
   pt_x (example_mouth ! 0) \<le> pt_x (example_mouth ! 6) \<and>
   crop_region (detection_box example_detection) = (50, 50, 200, 200) \<and>
   drawAvatar Part_000 2 example_page =
     Inr (example_page\<lparr>avatarCanvas :=
       \<lparr>canvas_width = 200, canvas_height = 200,
        painted = [DrawImage example_image 50 50 200 200 0 0 200 200,
                   FillEllipse (7 / 10) ''#1a0a0a'' 100 125 24 20]\<rparr>\<rparr>)"
proof -
  have r: "crop_region (detection_box example_detection) = (50, 50, 200, 200)"
    by (simp add: crop_region_eq example_detection_fields)
  show ?thesis
    using ellipse_from_landmarks [OF example_page_fields _ example_detection_fields(2) _ _ _ _ r,
        of 2]
    by (simp add: example_page_fields example_detection_fields example_mouth_points
        crop_region_eq)
qed

section \<open>What each function leaves unchanged\<close>

lemma drawAvatar_keeps:
  "chatHistory (page_after (drawAvatar v i s)) = chatHistory s"
  "avatarImage (page_after (drawAvatar v i s)) = avatarImage s"
  "faceDetection (page_after (drawAvatar v i s)) = faceDetection s"
  "isModelLoaded (page_after (drawAvatar v i s)) = isModelLoaded s"
  "sessions (page_after (drawAvatar v i s)) = sessions s"
  "frameRequests (page_after (drawAvatar v i s)) = frameRequests s"
  "nextHandle (page_after (drawAvatar v i s)) = nextHandle s"
  "objectURLs (page_after (drawAvatar v i s)) = objectURLs s"
  "nextURL (page_after (drawAvatar v i s)) = nextURL s"
  "onplay (page_after (drawAvatar v i s)) = onplay s"
  "onended (page_after (drawAvatar v i s)) = onended s"
  "onerror (page_after (drawAvatar v i s)) = onerror s"
  "speaking (page_after (drawAvatar v i s)) = speaking s"
  by (simp_all add: drawAvatar_def page_after_def Let_def
      split: option.splits prod.splits variant.splits)

lemma animateLipSync_alt:
  "animateLipSync v k bins s =
     (if isl (drawAvatar v (speakingIntensity bins) s)
      then page_after (drawAvatar v (speakingIntensity bins) s)
      else requestAnimationFrame k (page_after (drawAvatar v (speakingIntensity bins) s)))"
  by (simp add: animateLipSync_def page_after_def split: sum.splits prod.splits)

lemma onended_alt:
  "audioPlayer_onended v k s =
     (let s3 = page_after (drawAvatar v 0
                 (cancelAnimationFrame (animationId (sessions s ! k)) s\<lparr>speaking := False\<rparr>))
      in case v of
           App_js \<Rightarrow> resolve k (revokeObjectURL (audioUrl (sessions s3 ! k)) s3)
         | Part_000 \<Rightarrow> resolve k s3)"
proof -
  obtain s' where "drawAvatar v 0
      (cancelAnimationFrame (animationId (sessions s ! k)) s\<lparr>speaking := False\<rparr>) = Inr s'"
    using drawAvatar_zero_returns by blast
  then show ?thesis
    by (simp add: audioPlayer_onended_def page_after_def Let_def)
qed

lemma animateLipSync_keeps:
  "chatHistory (animateLipSync v k bins s) = chatHistory s"
  "avatarImage (animateLipSync v k bins s) = avatarImage s"
  "faceDetection (animateLipSync v k bins s) = faceDetection s"
  "onplay (animateLipSync v k bins s) = onplay s"
  "onended (animateLipSync v k bins s) = onended s"
  "onerror (animateLipSync v k bins s) = onerror s"
  "objectURLs (animateLipSync v k bins s) = objectURLs s"
  by (simp_all add: animateLipSync_alt requestAnimationFrame_def Let_def drawAvatar_keeps)

lemma run_frame_callbacks_keeps:
  "chatHistory (run_frame_callbacks v bins hs s) = chatHistory s \<and>
   avatarImage (run_frame_callbacks v bins hs s) = avatarImage s \<and>
   faceDetection (run_frame_callbacks v bins hs s) = faceDetection s \<and>
   onplay (run_frame_callbacks v bins hs s) = onplay s \<and>
   onended (run_frame_callbacks v bins hs s) = onended s \<and>
   onerror (run_frame_callbacks v bins hs s) = onerror s"
  by (induction hs arbitrary: s) (simp_all add: animateLipSync_keeps split: option.splits)

lemma playAudioWithLipSync_keeps:
  "chatHistory (playAudioWithLipSync v b susp s) = chatHistory s"
  "avatarImage (playAudioWithLipSync v b susp s) = avatarImage s"
  "faceDetection (playAudioWithLipSync v b susp s) = faceDetection s"
  "frameRequests (playAudioWithLipSync v b susp s) = frameRequests s"
  "avatarCanvas (playAudioWithLipSync v b susp s) = avatarCanvas s"
  by (simp_all add: playAudioWithLipSync_def add_session_def after_resume_def
      start_playback_def createObjectURL_def Let_def split: sum.splits variant.splits)

lemma after_resume_keeps:
  "chatHistory (after_resume k s) = chatHistory s"
  "avatarImage (after_resume k s) = avatarImage s"
  "faceDetection (after_resume k s) = faceDetection s"
  "frameRequests (after_resume k s) = frameRequests s"
  "avatarCanvas (after_resume k s) = avatarCanvas s"
  by (simp_all add: after_resume_def start_playback_def)

lemma resolve_keeps:
  "chatHistory (resolve k s) = chatHistory s"
  "avatarImage (resolve k s) = avatarImage s"
  "faceDetection (resolve k s) = faceDetection s"
  "frameRequests (resolve k s) = frameRequests s"
  "avatarCanvas (resolve k s) = avatarCanvas s"
  "objectURLs (resolve k s) = objectURLs s"
  "onplay (resolve k s) = onplay s"
  "onended (resolve k s) = onended s"
  "onerror (resolve k s) = onerror s"
  "speaking (resolve k s) = speaking s"
  by (simp_all add: resolve_def)

lemma revokeObjectURL_keeps:
  "chatHistory (revokeObjectURL u s) = chatHistory s"
  "avatarImage (revokeObjectURL u s) = avatarImage s"
  "faceDetection (revokeObjectURL u s) = faceDetection s"
  "frameRequests (revokeObjectURL u s) = frameRequests s"
  "avatarCanvas (revokeObjectURL u s) = avatarCanvas s"
  "sessions (revokeObjectURL u s) = sessions s"
  "onplay (revokeObjectURL u s) = onplay s"
  "onended (revokeObjectURL u s) = onended s"
  "onerror (revokeObjectURL u s) = onerror s"
  "speaking (revokeObjectURL u s) = speaking s"
  by (simp_all add: revokeObjectURL_def split: option.splits)

lemma cancelAnimationFrame_keeps:
  "chatHistory (cancelAnimationFrame h s) = chatHistory s"
  "avatarImage (cancelAnimationFrame h s) = avatarImage s"
  "faceDetection (cancelAnimationFrame h s) = faceDetection s"
  "avatarCanvas (cancelAnimationFrame h s) = avatarCanvas s"
  "sessions (cancelAnimationFrame h s) = sessions s"
  "objectURLs (cancelAnimationFrame h s) = objectURLs s"
  "onplay (cancelAnimationFrame h s) = onplay s"
  "onended (cancelAnimationFrame h s) = onended s"
  "onerror (cancelAnimationFrame h s) = onerror s"
  by (simp_all add: cancelAnimationFrame_def split: option.splits)

lemma handlers_keep:
  "chatHistory (audioPlayer_onended v k s) = chatHistory s"
  "avatarImage (audioPlayer_onended v k s) = avatarImage s"
  "faceDetection (audioPlayer_onended v k s) = faceDetection s"
  "chatHistory (audioPlayer_onerror v k s) = chatHistory s"
  "avatarImage (audioPlayer_onerror v k s) = avatarImage s"
  "faceDetection (audioPlayer_onerror v k s) = faceDetection s"
  "chatHistory (play_catch k s) = chatHistory s"
  "avatarImage (play_catch k s) = avatarImage s"
  "faceDetection (play_catch k s) = faceDetection s"
  by (simp_all add: onended_alt audioPlayer_onerror_def play_catch_def Let_def resolve_keeps
      revokeObjectURL_keeps drawAvatar_keeps cancelAnimationFrame_keeps split: variant.splits)

lemma loadFaceApiModels_keeps:
  "chatHistory (loadFaceApiModels b s) = chatHistory s"
  "avatarImage (loadFaceApiModels b s) = avatarImage s"
  "faceDetection (loadFaceApiModels b s) = faceDetection s"
  by (simp_all add: loadFaceApiModels_def setAvatarStatus_def Let_def)

lemma chatForm_submit_keeps:
  "avatarImage (fst (chatForm_submit m r s)) = avatarImage s"
  "faceDetection (fst (chatForm_submit m r s)) = faceDetection s"
  by (simp_all add: chatForm_submit_def Let_def split: chat_response.splits)

lemma drawAvatar_zero_Inr:
  "drawAvatar v 0 s = Inr (page_after (drawAvatar v 0 s))"
proof -
  obtain s' where "drawAvatar v 0 s = Inr s'"
    using drawAvatar_zero_returns by blast
  then show ?thesis by (simp add: page_after_def)
qed

lemma avatarInput_change_detected:
  assumes "isModelLoaded s"
  shows "avatarInput_change v (File bytes (Loaded w h (Face det))) s =
     setAvatarStatus
       (''Avatar configurado! '' @ [char_of (226 :: nat), char_of (156 :: nat), char_of (147 :: nat)])
       ''success''
       ((page_after (drawAvatar v 0
           (s\<lparr>avatarStatus := (''Processando imagem...'', ''avatar-status loading''),
              objectURLs := objectURLs s @ [(nextURL s, bytes)],
              nextURL := nextURL s + 1,
              faceDetection := Some det,
              avatarImage := Some \<lparr>image_id = nextURL s, image_width = w, image_height = h\<rparr>\<rparr>)))
        \<lparr>placeholderHidden := True, canvasHidden := False\<rparr>)"
  (is "_ = setAvatarStatus ?txt ''success'' ((page_after (drawAvatar v 0 ?s4))\<lparr>placeholderHidden := True, canvasHidden := False\<rparr>)")
proof -
  have "avatarInput_change v (File bytes (Loaded w h (Face det))) s =
      (case drawAvatar v 0 ?s4 of
         Inl (e, s5) \<Rightarrow> setAvatarStatus ''Erro ao processar imagem'' ''error'' s5
       | Inr s5 \<Rightarrow> setAvatarStatus ?txt ''success''
           (s5\<lparr>placeholderHidden := True, canvasHidden := False\<rparr>))"
    using assms
    by (simp add: avatarInput_change_def setAvatarStatus_def createObjectURL_def Let_def)
  also have "\<dots> = setAvatarStatus ?txt ''success''
      ((page_after (drawAvatar v 0 ?s4))\<lparr>placeholderHidden := True, canvasHidden := False\<rparr>)"
    by (subst drawAvatar_zero_Inr) simp
  finally show ?thesis .
qed

lemma avatarInput_change_chatHistory:
  "chatHistory (avatarInput_change v u s) = chatHistory s"
proof (cases "\<exists>bytes w h det. u = File bytes (Loaded w h (Face det)) \<and> isModelLoaded s")
  case True
  then show ?thesis
    by (auto simp: avatarInput_change_detected setAvatarStatus_def drawAvatar_keeps)
next
  case False
  then show ?thesis
    by (auto simp: avatarInput_change_def setAvatarStatus_def createObjectURL_def Let_def
        split: upload.splits load_result.splits detect_result.splits)
qed

section \<open>The chat history\<close>

lemma slice_last_short: "length xs \<le> n \<Longrightarrow> slice_last n xs = xs"
  by (simp add: slice_last_def)

lemma length_slice_last: "length (slice_last n xs) = min n (length xs)"
  by (simp add: slice_last_def)

lemma slice_last_append:
  "slice_last n (slice_last n xs @ ys) = slice_last n (xs @ ys)"
  by (cases "length xs \<le> n") (simp_all add: slice_last_def add.commute)

lemma step_chatHistory:
  assumes "length (chatHistory s) \<le> 20"
  shows "chatHistory (step v e s) = slice_last 20 (chatHistory s @ exchange_entries e)"
proof (cases e)
  case (ChatSubmit input_value response suspended)
  show ?thesis
  proof (cases response)
    case (Reply reply audio_base64)
    show ?thesis
      using assms unfolding ChatSubmit Reply
      by (auto simp: chatForm_submit_def Let_def playAudioWithLipSync_keeps slice_last_short
          split: option.splits)
  next
    case FetchRejected
    then show ?thesis
      using assms unfolding ChatSubmit
      by (simp add: chatForm_submit_def Let_def slice_last_short)
  next
    case (NotOk n)
    then show ?thesis
      using assms unfolding ChatSubmit
      by (simp add: chatForm_submit_def Let_def slice_last_short)
  next
    case BadJson
    then show ?thesis
      using assms unfolding ChatSubmit
      by (simp add: chatForm_submit_def Let_def slice_last_short)
  qed
qed (use assms in \<open>simp_all add: slice_last_short loadFaceApiModels_keeps
      avatarInput_change_chatHistory playAudioWithLipSync_keeps after_resume_keeps
      animateLipSync_keeps handlers_keep run_frame_callbacks_keeps split: option.splits\<close>)

lemma run_chatHistory:
  "length (chatHistory s) \<le> 20 \<Longrightarrow>
   chatHistory (run v evs s) = slice_last 20 (chatHistory s @ exchanges evs)"
proof (induction evs arbitrary: s)
  case Nil
  then show ?case by (simp add: exchanges_def slice_last_short)
next
  case (Cons e evs)
  have st: "chatHistory (step v e s) = slice_last 20 (chatHistory s @ exchange_entries e)"
    by (rule step_chatHistory [OF Cons.prems])
  then have "length (chatHistory (step v e s)) \<le> 20"
    by (simp add: length_slice_last)
  then have "chatHistory (run v evs (step v e s)) =
      slice_last 20 (chatHistory (step v e s) @ exchanges evs)"
    by (rule Cons.IH)
  then show ?case
    by (simp add: st slice_last_append exchanges_def)
qed

text \<open>
  C10. Whatever events the page has gone through since the script loaded, in either
  variant, \<^verbatim>\<open>chatHistory\<close> is the last 20 entries (or all, when there are fewer) of the
  user and assistant entries of the completed exchanges, in their order: at most 20
  entries, the most recent last, the older ones dropped.
\<close>

theorem chatHistory_last_twenty:
  "chatHistory (run v evs initial_page) = slice_last 20 (exchanges evs) \<and>
   length (chatHistory (run v evs initial_page)) \<le> 20 \<and>
   slice_last 20 (exchanges evs) = drop (length (exchanges evs) - 20) (exchanges evs)"
proof -
  have "length (chatHistory initial_page) \<le> 20"
    by (simp add: initial_page_def)
  then have "chatHistory (run v evs initial_page) =
      slice_last 20 (chatHistory initial_page @ exchanges evs)"
    by (rule run_chatHistory)
  then have "chatHistory (run v evs initial_page) = slice_last 20 (exchanges evs)"
    by (simp add: initial_page_def)
  then show ?thesis
    by (simp add: length_slice_last) (simp add: slice_last_def)
qed

section \<open>The avatar and its detection\<close>

lemma drawAvatar_canvas_cong:
  assumes "avatarImage s = avatarImage s'" "faceDetection s = faceDetection s'"
    and "avatarCanvas s = avatarCanvas s'"
  shows "avatarCanvas (page_after (drawAvatar v i s)) =
     avatarCanvas (page_after (drawAvatar v i s'))"
  using assms
  by (simp add: drawAvatar_def page_after_def Let_def
      split: option.splits prod.splits variant.splits)

lemma avatarInput_change_failed:
  "avatarImage (avatarInput_change v NoFile s) = avatarImage s"
  "faceDetection (avatarInput_change v NoFile s) = faceDetection s"
  "avatarImage (avatarInput_change v (File bytes LoadError) s) = avatarImage s"
  "faceDetection (avatarInput_change v (File bytes LoadError) s) = faceDetection s"
  "avatarImage (avatarInput_change v (File bytes (Loaded w h DetectRejected)) s) = avatarImage s"
  "faceDetection (avatarInput_change v (File bytes (Loaded w h DetectRejected)) s) = faceDetection s"
  "avatarImage (avatarInput_change v (File bytes (Loaded w h NoFace)) s) = avatarImage s"
  "faceDetection (avatarInput_change v (File bytes (Loaded w h NoFace)) s) = faceDetection s"
  by (simp_all add: avatarInput_change_def setAvatarStatus_def createObjectURL_def Let_def)

lemma avatarInput_change_not_loaded:
  "\<not> isModelLoaded s \<Longrightarrow> avatarImage (avatarInput_change v u s) = avatarImage s \<and>
     faceDetection (avatarInput_change v u s) = faceDetection s"
  by (simp add: avatarInput_change_def setAvatarStatus_def split: upload.splits)

lemma avatarInput_change_pair:
  "(avatarImage (avatarInput_change v u s) = avatarImage s \<and>
    faceDetection (avatarInput_change v u s) = faceDetection s) \<or>
   (\<exists>bytes w h det. u = File bytes (Loaded w h (Face det)) \<and> isModelLoaded s \<and>
      avatarImage (avatarInput_change v u s) =
        Some \<lparr>image_id = nextURL s, image_width = w, image_height = h\<rparr> \<and>
      faceDetection (avatarInput_change v u s) = Some det \<and>
      avatarCanvas (avatarInput_change v u s) =
        avatarCanvas (page_after (drawAvatar v 0
          (s\<lparr>faceDetection := Some det,
             avatarImage := Some \<lparr>image_id = nextURL s, image_width = w, image_height = h\<rparr>\<rparr>))) \<and>
      snd (avatarStatus (avatarInput_change v u s)) = ''avatar-status success'')"
proof (cases "isModelLoaded s")
  case False
  then show ?thesis by (simp add: avatarInput_change_not_loaded)
next
  case True
  show ?thesis
  proof (cases u)
    case NoFile
    then show ?thesis by (simp add: avatarInput_change_failed)
  next
    case (File bytes loaded)
    show ?thesis
    proof (cases loaded)
      case LoadError
      then show ?thesis unfolding File by (simp add: avatarInput_change_failed)
    next
      case (Loaded w h detected)
      show ?thesis
      proof (cases detected)
        case (Face det)
        have "avatarCanvas (page_after (drawAvatar v 0
            (s\<lparr>avatarStatus := (''Processando imagem...'', ''avatar-status loading''),
               objectURLs := objectURLs s @ [(nextURL s, bytes)],
               nextURL := nextURL s + 1,
               faceDetection := Some det,
               avatarImage := Some \<lparr>image_id = nextURL s, image_width = w, image_height = h\<rparr>\<rparr>))) =
          avatarCanvas (page_after (drawAvatar v 0
            (s\<lparr>faceDetection := Some det,
               avatarImage := Some \<lparr>image_id = nextURL s, image_width = w, image_height = h\<rparr>\<rparr>)))"
          by (rule drawAvatar_canvas_cong) simp_all
        then show ?thesis
          unfolding File Loaded Face using True
          by (simp add: avatarInput_change_detected setAvatarStatus_def drawAvatar_keeps)
      qed (simp_all add: File Loaded avatarInput_change_failed)
    qed
  qed
qed

lemma step_keeps_pair:
  assumes "\<And>u. e \<noteq> AvatarChange u"
  shows "avatarImage (step v e s) = avatarImage s \<and> faceDetection (step v e s) = faceDetection s"
proof (cases e)
  case (AvatarChange u)
  with assms [of u] show ?thesis by blast
next
  case (ChatSubmit input_value response suspended)
  show ?thesis
    using chatForm_submit_keeps [of input_value response s]
    unfolding ChatSubmit
    by (cases "chatForm_submit input_value response s")
      (auto simp: playAudioWithLipSync_keeps split: option.splits)
qed (simp_all add: loadFaceApiModels_keeps playAudioWithLipSync_keeps after_resume_keeps
      animateLipSync_keeps handlers_keep run_frame_callbacks_keeps split: option.splits)

text \<open>
  C9. An upload whose detection finds a face while the models are loaded replaces both
  \<^verbatim>\<open>avatarImage\<close> and \<^verbatim>\<open>faceDetection\<close> in the same step, by the uploaded image and its
  detection, whatever pair was there before, and the canvas is drawn from that new pair.
  Every other event leaves both as they were: an upload with no file, an image that fails
  to load, a detector that throws, a detection without a face, an upload before the models
  are loaded, and every event that is not an upload.
\<close>

theorem avatar_and_detection_replaced_together:
  "(isModelLoaded s \<longrightarrow>
      avatarImage (step v (AvatarChange (File bytes (Loaded w h (Face det)))) s) =
        Some \<lparr>image_id = nextURL s, image_width = w, image_height = h\<rparr> \<and>
      faceDetection (step v (AvatarChange (File bytes (Loaded w h (Face det)))) s) = Some det \<and>
      avatarCanvas (step v (AvatarChange (File bytes (Loaded w h (Face det)))) s) =
        avatarCanvas (page_after (drawAvatar v 0
          (s\<lparr>faceDetection := Some det,
             avatarImage := Some \<lparr>image_id = nextURL s, image_width = w, image_height = h\<rparr>\<rparr>))) \<and>
      snd (avatarStatus (step v (AvatarChange (File bytes (Loaded w h (Face det)))) s)) =
        ''avatar-status success'') \<and>
   ((\<forall>bytes w h det. e \<noteq> AvatarChange (File bytes (Loaded w h (Face det)))) \<or>
    \<not> isModelLoaded s \<longrightarrow>
      avatarImage (step v e s) = avatarImage s \<and> faceDetection (step v e s) = faceDetection s) \<and>
   avatarImage (step v (AvatarChange NoFile) s) = avatarImage s \<and>
   faceDetection (step v (AvatarChange NoFile) s) = faceDetection s \<and>
   avatarImage (step v (AvatarChange (File bytes' LoadError)) s) = avatarImage s \<and>
   faceDetection (step v (AvatarChange (File bytes' LoadError)) s) = faceDetection s \<and>
   avatarImage (step v (AvatarChange (File bytes' (Loaded w' h' DetectRejected))) s) = avatarImage s \<and>
   faceDetection (step v (AvatarChange (File bytes' (Loaded w' h' DetectRejected))) s) = faceDetection s \<and>
   avatarImage (step v (AvatarChange (File bytes' (Loaded w' h' NoFace))) s) = avatarImage s \<and>
   faceDetection (step v (AvatarChange (File bytes' (Loaded w' h' NoFace))) s) = faceDetection s"
proof -
  have replaced: "avatarImage (step v (AvatarChange (File bytes (Loaded w h (Face det)))) s) =
        Some \<lparr>image_id = nextURL s, image_width = w, image_height = h\<rparr> \<and>
      faceDetection (step v (AvatarChange (File bytes (Loaded w h (Face det)))) s) = Some det \<and>
      avatarCanvas (step v (AvatarChange (File bytes (Loaded w h (Face det)))) s) =
        avatarCanvas (page_after (drawAvatar v 0
          (s\<lparr>faceDetection := Some det,
             avatarImage := Some \<lparr>image_id = nextURL s, image_width = w, image_height = h\<rparr>\<rparr>))) \<and>
      snd (avatarStatus (step v (AvatarChange (File bytes (Loaded w h (Face det)))) s)) =
        ''avatar-status success''"
    if loaded: "isModelLoaded s"
  proof -
    have "avatarCanvas (page_after (drawAvatar v 0
        (s\<lparr>avatarStatus := (''Processando imagem...'', ''avatar-status loading''),
           objectURLs := objectURLs s @ [(nextURL s, bytes)],
           nextURL := nextURL s + 1,
           faceDetection := Some det,
           avatarImage := Some \<lparr>image_id = nextURL s, image_width = w, image_height = h\<rparr>\<rparr>))) =
      avatarCanvas (page_after (drawAvatar v 0
        (s\<lparr>faceDetection := Some det,
           avatarImage := Some \<lparr>image_id = nextURL s, image_width = w, image_height = h\<rparr>\<rparr>)))"
      by (rule drawAvatar_canvas_cong) simp_all
    then show ?thesis
      using loaded
      by (simp add: avatarInput_change_detected setAvatarStatus_def drawAvatar_keeps)
  qed
  have kept: "avatarImage (step v e s) = avatarImage s \<and>
      faceDetection (step v e s) = faceDetection s"
    if other: "(\<forall>bytes w h det. e \<noteq> AvatarChange (File bytes (Loaded w h (Face det)))) \<or>
      \<not> isModelLoaded s"
  proof (cases "\<exists>u. e = AvatarChange u")
    case True
    then obtain u where e: "e = AvatarChange u" ..
    from other have "\<not> (\<exists>bytes w h det. u = File bytes (Loaded w h (Face det)) \<and> isModelLoaded s)"
      unfolding e by blast
    then show ?thesis
      using avatarInput_change_pair [of v u s] unfolding e by auto
  next
    case False
    then show ?thesis
      using step_keeps_pair [of e v s] by blast
  qed
  show ?thesis
    using replaced kept by (simp add: avatarInput_change_failed)
qed

theorem avatar_and_detection_replaced_together_witness:
  "isModelLoaded example_page \<and>
   avatarImage example_page = Some example_image \<and>
   faceDetection example_page = Some example_detection \<and>
   nextURL example_page = 1 \<and>
   avatarImage (step Part_000
      (AvatarChange (File second_file (Loaded 300 300 (Face second_detection)))) example_page) =
     Some \<lparr>image_id = 1, image_width = 300, image_height = 300\<rparr> \<and>
   faceDetection (step Part_000
      (AvatarChange (File second_file (Loaded 300 300 (Face second_detection)))) example_page) =
     Some second_detection \<and>
   painted (avatarCanvas (step Part_000
      (AvatarChange (File second_file (Loaded 300 300 (Face second_detection)))) example_page)) =
     [DrawImage \<lparr>image_id = 1, image_width = 300, image_height = 300\<rparr> 10 20 160 170 0 0 200 200] \<and>
   avatarImage (step Part_000 (AvatarChange (File second_file (Loaded 300 300 NoFace)))
      example_page) = Some example_image \<and>
   faceDetection (step Part_000 (AvatarChange (File second_file (Loaded 300 300 NoFace)))
      example_page) = Some example_detection \<and>
   avatarImage (step Part_000 (AudioPlay (\<lambda>_. 100)) example_page) = Some example_image \<and>
   faceDetection (step Part_000 (AudioPlay (\<lambda>_. 100)) example_page) = Some example_detection \<and>
   avatarImage (step Part_000
      (AvatarChange (File example_file (Loaded 400 400 (Face example_detection)))) initial_page) =
     None"
proof -
  have l: "isModelLoaded example_page" "nextURL example_page = 1"
    "\<not> isModelLoaded initial_page" "avatarImage initial_page = None"
    by (simp_all add: example_page_eq initial_page_def)
  have c: "painted (avatarCanvas (page_after (drawAvatar Part_000 0
      (example_page\<lparr>faceDetection := Some second_detection,
         avatarImage := Some \<lparr>image_id = 1, image_width = 300, image_height = 300\<rparr>\<rparr>)))) =
    [DrawImage \<lparr>image_id = 1, image_width = 300, image_height = 300\<rparr> 10 20 160 170 0 0 200 200]"
    by (simp add: drawAvatar_def crop_region_eq Let_def drawImage_def page_after_def
        second_detection_def)
  show ?thesis
    using c avatar_and_detection_replaced_together
        [of example_page Part_000 second_file 300 300 second_detection
          "AudioPlay (\<lambda>_. 100)" second_file 300 300]
      avatar_and_detection_replaced_together
        [of initial_page Part_000 second_file 300 300 second_detection
          "AvatarChange (File example_file (Loaded 400 400 (Face example_detection)))"
          second_file 300 300]
    by (simp add: l example_page_fields del: step.simps)
qed

section \<open>Scheduled callbacks and playAudioWithLipSync\<close>

lemma example_payload: "atob ''AAAA'' = Inr [0, 0, 0]"
  by (simp add: atob_def strip_padding_def ascii_whitespace_def sextet_def)

lemma malformed_payload: "atob ''!'' = Inl InvalidCharacterError"
  by (simp add: atob_def strip_padding_def ascii_whitespace_def sextet_def)

lemma drawAvatar_App_js_returns: "\<not> isl (drawAvatar App_js i s)"
  by (simp add: drawAvatar_def Let_def split: option.splits prod.splits)

lemma animateLipSync_requests:
  "frameRequests (animateLipSync v k bins s) = frameRequests s \<or>
   frameRequests (animateLipSync v k bins s) = frameRequests s @ [(nextHandle s, k)]"
  by (simp add: animateLipSync_alt requestAnimationFrame_def Let_def drawAvatar_keeps)

lemma animateLipSync_App_js_requests:
  "frameRequests (animateLipSync App_js k bins s) = frameRequests s @ [(nextHandle s, k)]"
  by (simp add: animateLipSync_alt requestAnimationFrame_def Let_def drawAvatar_keeps
      drawAvatar_App_js_returns)

lemma playAudioWithLipSync_App_js_started:
  assumes "atob b = Inr bytes"
  shows "onplay (playAudioWithLipSync App_js b False s) = Some (length (sessions s))"
    and "nextHandle (playAudioWithLipSync App_js b False s) = nextHandle s"
  using assms
  by (simp_all add: playAudioWithLipSync_def add_session_def after_resume_def
      start_playback_def createObjectURL_def Let_def)

text \<open>
  C8, as stated: a second call of \<^verbatim>\<open>playAudioWithLipSync\<close> cancels the pending callback of
  the first call's loop, so that two loops never schedule frames side by side. The function
  cancels nothing. In \<^verbatim>\<open>app.js\<close>, after a first call and its \<^verbatim>\<open>play\<close> event the request
  with handle 1 of call 0 is pending; it is still pending when the second call has
  returned; after the second call's \<^verbatim>\<open>play\<close> event the requests of call 0 and call 1 are
  both pending, and after the next display frame both loops have rescheduled themselves.
\<close>

theorem second_call_leaves_first_loop_running:
  "frameRequests (run App_js
     [PlayAudio ''AAAA'' False, AudioPlay (\<lambda>_. 100)] initial_page) = [(1, 0)] \<and>
   frameRequests (run App_js
     [PlayAudio ''AAAA'' False, AudioPlay (\<lambda>_. 100), PlayAudio ''AAAA'' False]
     initial_page) = [(1, 0)] \<and>
   frameRequests (run App_js
     [PlayAudio ''AAAA'' False, AudioPlay (\<lambda>_. 100), PlayAudio ''AAAA'' False,
      AudioPlay (\<lambda>_. 100)] initial_page) = [(1, 0), (2, 1)] \<and>
   frameRequests (run App_js
     [PlayAudio ''AAAA'' False, AudioPlay (\<lambda>_. 100), PlayAudio ''AAAA'' False,
      AudioPlay (\<lambda>_. 100), AnimationFrame (\<lambda>_. 100)] initial_page) = [(3, 0), (4, 1)]"
  by (simp add: playAudioWithLipSync_def add_session_def after_resume_def start_playback_def
      createObjectURL_def Let_def animateLipSync_def requestAnimationFrame_def
      example_payload initial_page_def drawAvatar_def)

text \<open>
  C8, amended: \<^verbatim>\<open>playAudioWithLipSync\<close> cancels no scheduled callback: in both variants and
  for every payload the pending animation-frame requests are the same after the call (and
  after its resumption behind \<^verbatim>\<open>await audioContext.resume()\<close>) as before it. There is at
  most one pending request after a call and the following \<^verbatim>\<open>play\<close> event when none was
  pending at the call; in \<^verbatim>\<open>app.js\<close>, for a payload that decodes and a running audio
  context, it is exactly the one request of the new call.
\<close>

theorem playAudioWithLipSync_cancels_nothing:
  "frameRequests (playAudioWithLipSync v b suspended s) = frameRequests s \<and>
   frameRequests (step v (ResumeFulfilled k) s) = frameRequests s \<and>
   (frameRequests s = [] \<longrightarrow>
      length (frameRequests (run v [PlayAudio b suspended, AudioPlay bins] s)) \<le> 1) \<and>
   (frameRequests s = [] \<and> atob b = Inr bytes \<longrightarrow>
      frameRequests (run App_js [PlayAudio b False, AudioPlay bins] s) =
        [(nextHandle s, length (sessions s))])"
proof -
  have a: "frameRequests (playAudioWithLipSync v b suspended s) = frameRequests s"
    by (rule playAudioWithLipSync_keeps)
  have b: "frameRequests (step v (ResumeFulfilled k) s) = frameRequests s"
    by (simp add: after_resume_keeps)
  have c: "length (frameRequests (run v [PlayAudio b suspended, AudioPlay bins] s)) \<le> 1"
    if "frameRequests s = []"
  proof (cases "onplay (playAudioWithLipSync v b suspended s)")
    case None
    then show ?thesis using that by (simp add: a)
  next
    case (Some k')
    then show ?thesis
      using that animateLipSync_requests [of v k' bins "playAudioWithLipSync v b suspended s"]
      by (auto simp: a)
  qed
  have d: "frameRequests (run App_js [PlayAudio b False, AudioPlay bins] s) =
      [(nextHandle s, length (sessions s))]"
    if "frameRequests s = []" "atob b = Inr bytes"
    using that
    by (simp add: playAudioWithLipSync_App_js_started animateLipSync_App_js_requests
        playAudioWithLipSync_keeps)
  show ?thesis
    using a b c d by blast
qed

theorem playAudioWithLipSync_cancels_nothing_witness:
  "frameRequests initial_page = [] \<and> atob ''AAAA'' = Inr [0, 0, 0] \<and>
   frameRequests (playAudioWithLipSync App_js ''AAAA'' False initial_page) = [] \<and>
   frameRequests (run App_js [PlayAudio ''AAAA'' False, AudioPlay (\<lambda>_. 100)] initial_page) =
     [(1, 0)] \<and>
   length (frameRequests (run Part_000 [PlayAudio ''AAAA'' False, AudioPlay (\<lambda>_. 100)]
     initial_page)) \<le> 1"
  using playAudioWithLipSync_cancels_nothing
      [of App_js "''AAAA''" False initial_page 0 "\<lambda>_. 100" "[0, 0, 0]"]
    playAudioWithLipSync_cancels_nothing
      [of Part_000 "''AAAA''" False initial_page 0 "\<lambda>_. 100" "[0, 0, 0]"]
  by (simp add: example_payload) (simp add: initial_page_def)

section \<open>Promises\<close>

lemma untouched_requestAnimationFrame:
  "untouched k s \<Longrightarrow> k' \<noteq> k \<Longrightarrow>
   untouched k (requestAnimationFrame k' s) \<and>
   sessions (requestAnimationFrame k' s) ! k = sessions s ! k"
  by (simp add: untouched_def requestAnimationFrame_def Let_def)

lemma untouched_animateLipSync:
  "untouched k s \<Longrightarrow> k' \<noteq> k \<Longrightarrow>
   untouched k (animateLipSync v k' bins s) \<and>
   sessions (animateLipSync v k' bins s) ! k = sessions s ! k"
proof -
  assume u: "untouched k s" and n: "k' \<noteq> k"
  have "untouched k (page_after (drawAvatar v (speakingIntensity bins) s))"
    using u by (simp add: untouched_def drawAvatar_keeps)
  then show ?thesis
    using n untouched_requestAnimationFrame
      [of k "page_after (drawAvatar v (speakingIntensity bins) s)" k']
    by (simp add: animateLipSync_alt drawAvatar_keeps)
qed

lemma untouched_run_frame_callbacks:
  "untouched k s \<Longrightarrow>
   untouched k (run_frame_callbacks v bins hs s) \<and>
   sessions (run_frame_callbacks v bins hs s) ! k = sessions s ! k"
proof (induction hs arbitrary: s)
  case Nil
  then show ?case by simp
next
  case (Cons h hs)
  show ?case
  proof (cases "map_of (frameRequests s) h")
    case None
    then show ?thesis using Cons by simp
  next
    case (Some k')
    let ?s1 = "s\<lparr>frameRequests := filter (\<lambda>(h', k'). h' \<noteq> h) (frameRequests s)\<rparr>"
    from Some have "(h, k') \<in> set (frameRequests s)" by (rule map_of_SomeD)
    then have n: "k' \<noteq> k"
      using Cons.prems by (force simp: untouched_def)
    have "untouched k ?s1"
      using Cons.prems by (auto simp: untouched_def)
    then have a: "untouched k (animateLipSync v k' bins ?s1)"
      "sessions (animateLipSync v k' bins ?s1) ! k = sessions s ! k"
      using untouched_animateLipSync [of k ?s1 k' v bins] n by simp_all
    show ?thesis
      using Cons.IH [OF a(1)] a(2) Some by simp
  qed
qed

lemma untouched_resolve:
  "untouched k s \<Longrightarrow> k' \<noteq> k \<Longrightarrow>
   untouched k (resolve k' s) \<and> sessions (resolve k' s) ! k = sessions s ! k"
  by (simp add: untouched_def resolve_def)

lemma untouched_onended:
  "untouched k s \<Longrightarrow> k' \<noteq> k \<Longrightarrow>
   untouched k (audioPlayer_onended v k' s) \<and>
   sessions (audioPlayer_onended v k' s) ! k = sessions s ! k"
proof -
  assume u: "untouched k s" and n: "k' \<noteq> k"
  let ?s3 = "page_after (drawAvatar v 0
    (cancelAnimationFrame (animationId (sessions s ! k')) s\<lparr>speaking := False\<rparr>))"
  have s3: "untouched k ?s3" "sessions ?s3 = sessions s"
    using u by (auto simp: untouched_def drawAvatar_keeps cancelAnimationFrame_def
        split: option.splits)
  have "untouched k (revokeObjectURL (audioUrl (sessions ?s3 ! k')) ?s3)"
    "sessions (revokeObjectURL (audioUrl (sessions ?s3 ! k')) ?s3) = sessions s"
    using s3 by (simp_all add: untouched_def revokeObjectURL_keeps)
  then show ?thesis
    using s3 n untouched_resolve [of k _ k']
    by (cases v) (simp_all add: onended_alt Let_def)
qed

lemma untouched_onerror:
  "untouched k s \<Longrightarrow> k' \<noteq> k \<Longrightarrow>
   untouched k (audioPlayer_onerror v k' s) \<and>
   sessions (audioPlayer_onerror v k' s) ! k = sessions s ! k"
proof -
  assume u: "untouched k s" and n: "k' \<noteq> k"
  let ?s2 = "cancelAnimationFrame (animationId (sessions s ! k')) s\<lparr>speaking := False\<rparr>"
  have s2: "untouched k ?s2" "sessions ?s2 = sessions s"
    using u by (auto simp: untouched_def cancelAnimationFrame_def split: option.splits)
  have "untouched k (revokeObjectURL (audioUrl (sessions ?s2 ! k')) ?s2)"
    "sessions (revokeObjectURL (audioUrl (sessions ?s2 ! k')) ?s2) = sessions s"
    using s2 by (simp_all add: untouched_def revokeObjectURL_keeps)
  then show ?thesis
    using s2 n untouched_resolve [of k _ k']
    by (cases v) (simp_all add: audioPlayer_onerror_def Let_def)
qed

lemma untouched_play_catch:
  "untouched k s \<Longrightarrow> k' \<noteq> k \<Longrightarrow>
   untouched k (play_catch k' s) \<and> sessions (play_catch k' s) ! k = sessions s ! k"
  using untouched_resolve [of k "s\<lparr>speaking := False\<rparr>" k']
  by (simp add: play_catch_def untouched_def)

lemma untouched_after_resume:
  "untouched k s \<Longrightarrow> k' \<noteq> k \<Longrightarrow>
   untouched k (after_resume k' s) \<and> sessions (after_resume k' s) ! k = sessions s ! k"
  by (simp add: untouched_def after_resume_def start_playback_def)

lemma untouched_playAudioWithLipSync:
  "untouched k s \<Longrightarrow>
   untouched k (playAudioWithLipSync v b susp s) \<and>
   sessions (playAudioWithLipSync v b susp s) ! k = sessions s ! k"
  by (auto simp: untouched_def playAudioWithLipSync_def add_session_def after_resume_def
      start_playback_def createObjectURL_def Let_def nth_append
      split: sum.splits variant.splits)

lemma playback_same:
  assumes "sessions s' = sessions s" "onplay s' = onplay s" "onended s' = onended s"
    "onerror s' = onerror s" "frameRequests s' = frameRequests s"
  shows "untouched k s' = untouched k s"
  using assms by (simp add: untouched_def)

lemma loadFaceApiModels_playback:
  "sessions (loadFaceApiModels b s) = sessions s"
  "onplay (loadFaceApiModels b s) = onplay s"
  "onended (loadFaceApiModels b s) = onended s"
  "onerror (loadFaceApiModels b s) = onerror s"
  "frameRequests (loadFaceApiModels b s) = frameRequests s"
  by (simp_all add: loadFaceApiModels_def setAvatarStatus_def Let_def)

lemma chatForm_submit_playback:
  "sessions (fst (chatForm_submit m r s)) = sessions s"
  "onplay (fst (chatForm_submit m r s)) = onplay s"
  "onended (fst (chatForm_submit m r s)) = onended s"
  "onerror (fst (chatForm_submit m r s)) = onerror s"
  "frameRequests (fst (chatForm_submit m r s)) = frameRequests s"
  by (simp_all add: chatForm_submit_def Let_def split: chat_response.splits)

lemma avatarInput_change_playback:
  "sessions (avatarInput_change v u s) = sessions s \<and>
   onplay (avatarInput_change v u s) = onplay s \<and>
   onended (avatarInput_change v u s) = onended s \<and>
   onerror (avatarInput_change v u s) = onerror s \<and>
   frameRequests (avatarInput_change v u s) = frameRequests s"
proof (cases "\<exists>bytes w h det. u = File bytes (Loaded w h (Face det)) \<and> isModelLoaded s")
  case True
  then show ?thesis
    by (auto simp: avatarInput_change_detected setAvatarStatus_def drawAvatar_keeps)
next
  case False
  then show ?thesis
    by (auto simp: avatarInput_change_def setAvatarStatus_def createObjectURL_def Let_def
        split: upload.splits load_result.splits detect_result.splits)
qed

lemma untouched_step:
  assumes "untouched k s"
  shows "untouched k (step v e s) \<and> sessions (step v e s) ! k = sessions s ! k"
proof (cases e)
  case (ModelsLoaded b)
  then show ?thesis
    using assms playback_same [of "loadFaceApiModels b s" s k]
    by (simp add: loadFaceApiModels_playback)
next
  case (AvatarChange u)
  then show ?thesis
    using assms playback_same [of "avatarInput_change v u s" s k]
    by (simp add: avatarInput_change_playback)
next
  case (ChatSubmit m r susp)
  obtain s' a where c: "chatForm_submit m r s = (s', a)"
    by (cases "chatForm_submit m r s")
  have "untouched k s'" "sessions s' = sessions s"
    using assms playback_same [of s' s k] chatForm_submit_playback [of m r s]
    by (simp_all add: c)
  then show ?thesis
    using untouched_playAudioWithLipSync [of k s' v _ susp]
    by (cases a) (simp_all add: ChatSubmit c)
next
  case (PlayAudio b susp)
  then show ?thesis
    using assms by (simp add: untouched_playAudioWithLipSync)
next
  case (ResumeFulfilled k')
  show ?thesis
  proof (cases "k' < length (sessions s) \<and> progress (sessions s ! k') = AwaitingResume")
    case True
    then have "k' \<noteq> k" using assms by (auto simp: untouched_def)
    then show ?thesis
      using assms True by (simp add: ResumeFulfilled untouched_after_resume)
  next
    case False
    then show ?thesis using assms by (auto simp: ResumeFulfilled)
  qed
next
  case (AudioPlay bins)
  show ?thesis
  proof (cases "onplay s")
    case None
    then show ?thesis using assms by (simp add: AudioPlay)
  next
    case (Some k')
    then have "k' \<noteq> k" using assms by (auto simp: untouched_def)
    then show ?thesis
      using assms Some by (simp add: AudioPlay untouched_animateLipSync)
  qed
next
  case AudioEnded
  show ?thesis
  proof (cases "onended s")
    case None
    then show ?thesis using assms by (simp add: AudioEnded)
  next
    case (Some k')
    then have "k' \<noteq> k" using assms by (auto simp: untouched_def)
    then show ?thesis
      using assms Some by (simp add: AudioEnded untouched_onended)
  qed
next
  case AudioError
  show ?thesis
  proof (cases "onerror s")
    case None
    then show ?thesis using assms by (simp add: AudioError)
  next
    case (Some k')
    then have "k' \<noteq> k" using assms by (auto simp: untouched_def)
    then show ?thesis
      using assms Some by (simp add: AudioError untouched_onerror)
  qed
next
  case (PlayRejected k')
  show ?thesis
  proof (cases "k' < length (sessions s) \<and> progress (sessions s ! k') = Started")
    case True
    then have "k' \<noteq> k" using assms by (auto simp: untouched_def)
    then show ?thesis
      using assms True by (simp add: PlayRejected untouched_play_catch)
  next
    case False
    then show ?thesis using assms by (auto simp: PlayRejected)
  qed
next
  case (AnimationFrame bins)
  then show ?thesis
    using assms by (simp add: untouched_run_frame_callbacks)
qed

lemma untouched_run:
  "untouched k s \<Longrightarrow> sessions (run v evs s) ! k = sessions s ! k"
proof (induction evs arbitrary: s)
  case Nil
  then show ?case by simp
next
  case (Cons e evs)
  from untouched_step [OF Cons.prems, of v e]
  have "untouched k (step v e s)" "sessions (step v e s) ! k = sessions s ! k"
    by simp_all
  then show ?case
    using Cons.IH [of "step v e s"] by simp
qed

lemma closures_exist_iff:
  "closures_exist s \<longleftrightarrow>
     (\<forall>(h, k) \<in> set (frameRequests s). k < length (sessions s)) \<and>
     (\<forall>k. onplay s = Some k \<longrightarrow> k < length (sessions s)) \<and>
     (\<forall>k. onended s = Some k \<longrightarrow> k < length (sessions s)) \<and>
     (\<forall>k. onerror s = Some k \<longrightarrow> k < length (sessions s))"
  by (cases "onplay s"; cases "onended s"; cases "onerror s")
    (auto simp: closures_exist_def list_all_iff)

lemma closures_exist_same:
  assumes "length (sessions s') = length (sessions s)" "onplay s' = onplay s"
    "onended s' = onended s" "onerror s' = onerror s" "frameRequests s' = frameRequests s"
  shows "closures_exist s' = closures_exist s"
  using assms by (simp add: closures_exist_iff)

lemma closures_exist_animateLipSync:
  "closures_exist s \<Longrightarrow> k < length (sessions s) \<Longrightarrow>
   closures_exist (animateLipSync v k bins s) \<and>
   length (sessions (animateLipSync v k bins s)) = length (sessions s)"
  by (simp add: closures_exist_iff animateLipSync_alt requestAnimationFrame_def Let_def
      drawAvatar_keeps)

lemma closures_exist_run_frame_callbacks:
  "closures_exist s \<Longrightarrow>
   closures_exist (run_frame_callbacks v bins hs s) \<and>
   length (sessions (run_frame_callbacks v bins hs s)) = length (sessions s)"
proof (induction hs arbitrary: s)
  case Nil
  then show ?case by simp
next
  case (Cons h hs)
  show ?case
  proof (cases "map_of (frameRequests s) h")
    case None
    then show ?thesis using Cons by simp
  next
    case (Some k')
    let ?s1 = "s\<lparr>frameRequests := filter (\<lambda>(h', k'). h' \<noteq> h) (frameRequests s)\<rparr>"
    from Some have "(h, k') \<in> set (frameRequests s)" by (rule map_of_SomeD)
    then have n: "k' < length (sessions s)"
      using Cons.prems by (force simp: closures_exist_iff)
    have "closures_exist ?s1"
      using Cons.prems by (auto simp: closures_exist_iff)
    then have a: "closures_exist (animateLipSync v k' bins ?s1)"
      "length (sessions (animateLipSync v k' bins ?s1)) = length (sessions s)"
      using closures_exist_animateLipSync [of ?s1 k' v bins] n by simp_all
    show ?thesis
      using Cons.IH [OF a(1)] a(2) Some by simp
  qed
qed

lemma closures_exist_resolve:
  "closures_exist s \<Longrightarrow> closures_exist (resolve k s) \<and>
     length (sessions (resolve k s)) = length (sessions s)"
  by (simp add: closures_exist_iff resolve_def)

lemma closures_exist_cancelAnimationFrame:
  "closures_exist s \<Longrightarrow> closures_exist (cancelAnimationFrame h s)"
  by (auto simp: closures_exist_iff cancelAnimationFrame_def split: option.splits)

lemma closures_exist_playAudioWithLipSync:
  "closures_exist s \<Longrightarrow> closures_exist (playAudioWithLipSync v b susp s)"
  by (auto simp: closures_exist_iff playAudioWithLipSync_def add_session_def after_resume_def
      start_playback_def createObjectURL_def Let_def
      split: sum.splits variant.splits option.splits)

lemma closures_exist_step:
  assumes "closures_exist s"
  shows "closures_exist (step v e s)"
proof (cases e)
  case (ModelsLoaded b)
  then show ?thesis
    using assms closures_exist_same [of "loadFaceApiModels b s" s]
    by (simp add: loadFaceApiModels_playback)
next
  case (AvatarChange u)
  then show ?thesis
    using assms closures_exist_same [of "avatarInput_change v u s" s]
    by (simp add: avatarInput_change_playback)
next
  case (ChatSubmit m r susp)
  obtain s' a where c: "chatForm_submit m r s = (s', a)"
    by (cases "chatForm_submit m r s")
  have "closures_exist s'"
    using assms closures_exist_same [of s' s] chatForm_submit_playback [of m r s]
    by (simp add: c)
  then show ?thesis
    using closures_exist_playAudioWithLipSync [of s' v _ susp]
    by (cases a) (simp_all add: ChatSubmit c)
next
  case (PlayAudio b susp)
  then show ?thesis
    using assms by (simp add: closures_exist_playAudioWithLipSync)
next
  case (ResumeFulfilled k')
  then show ?thesis
    using assms
    by (auto simp: closures_exist_iff after_resume_def start_playback_def)
next
  case (AudioPlay bins)
  show ?thesis
  proof (cases "onplay s")
    case None
    then show ?thesis using assms by (simp add: AudioPlay)
  next
    case (Some k')
    then have "k' < length (sessions s)"
      using assms by (simp add: closures_exist_iff)
    then show ?thesis
      using assms Some by (simp add: AudioPlay closures_exist_animateLipSync)
  qed
next
  case AudioEnded
  show ?thesis
  proof (cases "onended s")
    case None
    then show ?thesis using assms by (simp add: AudioEnded)
  next
    case (Some k')
    let ?s3 = "page_after (drawAvatar v 0
      (cancelAnimationFrame (animationId (sessions s ! k')) s\<lparr>speaking := False\<rparr>))"
    have "closures_exist (cancelAnimationFrame (animationId (sessions s ! k')) s)"
      using assms by (rule closures_exist_cancelAnimationFrame)
    then have s3: "closures_exist ?s3"
      by (simp add: closures_exist_iff drawAvatar_keeps cancelAnimationFrame_def
          split: option.splits)
    then have "closures_exist (revokeObjectURL (audioUrl (sessions ?s3 ! k')) ?s3)"
      by (simp add: closures_exist_iff revokeObjectURL_keeps)
    then show ?thesis
      using s3 closures_exist_resolve
      by (cases v) (simp_all add: AudioEnded Some onended_alt Let_def)
  qed
next
  case AudioError
  show ?thesis
  proof (cases "onerror s")
    case None
    then show ?thesis using assms by (simp add: AudioError)
  next
    case (Some k')
    let ?s2 = "cancelAnimationFrame (animationId (sessions s ! k')) s\<lparr>speaking := False\<rparr>"
    have "closures_exist (cancelAnimationFrame (animationId (sessions s ! k')) s)"
      using assms by (rule closures_exist_cancelAnimationFrame)
    then have s2: "closures_exist ?s2"
      by (simp add: closures_exist_iff cancelAnimationFrame_def split: option.splits)
    then have "closures_exist (revokeObjectURL (audioUrl (sessions ?s2 ! k')) ?s2)"
      by (simp add: closures_exist_iff revokeObjectURL_keeps)
    then show ?thesis
      using s2 closures_exist_resolve
      by (cases v) (simp_all add: AudioError Some audioPlayer_onerror_def Let_def)
  qed
next
  case (PlayRejected k')
  have "closures_exist (s\<lparr>speaking := False\<rparr>)"
    using assms by (simp add: closures_exist_iff)
  then show ?thesis
    using assms closures_exist_resolve [of "s\<lparr>speaking := False\<rparr>" k']
    by (simp add: PlayRejected play_catch_def)
next
  case (AnimationFrame bins)
  then show ?thesis
    using assms by (simp add: closures_exist_run_frame_callbacks)
qed

lemma closures_exist_run:
  "closures_exist s \<Longrightarrow> closures_exist (run v evs s)"
  by (induction evs arbitrary: s) (simp_all add: closures_exist_step)

lemma closures_exist_initial: "closures_exist initial_page"
  by (simp add: closures_exist_iff initial_page_def)

lemma malformed_untouched_general:
  assumes "atob b = Inl e" "closures_exist s"
  shows "untouched (length (sessions s)) (playAudioWithLipSync v b susp s)"
  using assms
  by (auto simp: untouched_def closures_exist_iff playAudioWithLipSync_def add_session_def
      split: variant.splits option.splits)

lemma run_append: "run v (evs @ evs') s = run v evs' (run v evs s)"
  by (induction evs arbitrary: s) simp_all

text \<open>
  C1, at a malformed payload. \<^verbatim>\<open>atob('!')\<close> throws. In \<^verbatim>\<open>part_000\<close> the promise returned is
  rejected; in \<^verbatim>\<open>app.js\<close> it is pending after the call and stays pending whatever events
  follow. In neither variant does it ever resolve, whether the call is the first thing that
  happens on the page or comes after other events.
\<close>

theorem malformed_payload_never_resolves:
  "atob ''!'' = Inl InvalidCharacterError \<and>
   promise (sessions (playAudioWithLipSync Part_000 ''!'' False initial_page) ! 0) =
     Rejected InvalidCharacterError \<and>
   promise (sessions (playAudioWithLipSync App_js ''!'' False initial_page) ! 0) = Pending \<and>
   (\<forall>evs. promise (sessions (run Part_000 (PlayAudio ''!'' False # evs) initial_page) ! 0) =
      Rejected InvalidCharacterError) \<and>
   (\<forall>evs. promise (sessions (run App_js (PlayAudio ''!'' False # evs) initial_page) ! 0) =
      Pending) \<and>
   (\<forall>before suspended evs.
      promise (sessions (run Part_000 (before @ PlayAudio ''!'' suspended # evs) initial_page) !
        length (sessions (run Part_000 before initial_page))) =
      Rejected InvalidCharacterError) \<and>
   (\<forall>before suspended evs.
      promise (sessions (run App_js (before @ PlayAudio ''!'' suspended # evs) initial_page) !
        length (sessions (run App_js before initial_page))) =
      Pending)"
proof -
  have g: "sessions (run v (before @ PlayAudio ''!'' susp # evs) initial_page) !
        length (sessions (run v before initial_page)) =
      sessions (playAudioWithLipSync v ''!'' susp (run v before initial_page)) !
        length (sessions (run v before initial_page))" for v before susp evs
  proof -
    have "closures_exist (run v before initial_page)"
      by (rule closures_exist_run [OF closures_exist_initial])
    then have "untouched (length (sessions (run v before initial_page)))
        (playAudioWithLipSync v ''!'' susp (run v before initial_page))"
      by (rule malformed_untouched_general [OF malformed_payload])
    then show ?thesis
      by (simp add: run_append untouched_run)
  qed
  have p: "promise (sessions (playAudioWithLipSync Part_000 ''!'' susp s) ! length (sessions s)) =
      Rejected InvalidCharacterError" for susp s
    by (simp add: playAudioWithLipSync_def malformed_payload add_session_def)
  have a: "promise (sessions (playAudioWithLipSync App_js ''!'' susp s) ! length (sessions s)) =
      Pending" for susp s
    by (simp add: playAudioWithLipSync_def malformed_payload add_session_def)
  have z: "length (sessions initial_page) = 0"
    by (simp add: initial_page_def)
  have "promise (sessions (run Part_000 (PlayAudio ''!'' False # evs) initial_page) ! 0) =
      Rejected InvalidCharacterError" for evs
    using g [of Part_000 "[]" False evs] p [of False initial_page] by (simp add: z)
  moreover have "promise (sessions (run App_js (PlayAudio ''!'' False # evs) initial_page) ! 0) =
      Pending" for evs
    using g [of App_js "[]" False evs] a [of False initial_page] by (simp add: z)
  moreover have "promise (sessions (playAudioWithLipSync Part_000 ''!'' False initial_page) ! 0) =
      Rejected InvalidCharacterError"
    using p [of False initial_page] by (simp add: z)
  moreover have "promise (sessions (playAudioWithLipSync App_js ''!'' False initial_page) ! 0) =
      Pending"
    using a [of False initial_page] by (simp add: z)
  ultimately show ?thesis
    by (simp add: malformed_payload g p a)
qed

section \<open>The end of a playback session\<close>

lemma promise_resolve:
  "k < length (sessions s) \<Longrightarrow>
   length (sessions (resolve k' s)) = length (sessions s) \<and>
   (promise (sessions (resolve k' s) ! k) = promise (sessions s ! k) \<or>
    promise (sessions s ! k) = Pending \<and> promise (sessions (resolve k' s) ! k) = Resolved)"
  by (cases "k = k'") (simp_all add: resolve_def)

lemma resolve_settles:
  "k < length (sessions s) \<Longrightarrow>
   promise (sessions (resolve k s) ! k) =
     (if promise (sessions s ! k) = Pending then Resolved else promise (sessions s ! k))"
  by (simp add: resolve_def)

text \<open>
  The \<^verbatim>\<open>ended\<close> handler of \<^verbatim>\<open>app.js\<close>: the request the session last made is no longer
  pending, the canvas is what \<^verbatim>\<open>drawAvatar(0)\<close> draws, the session's object URL is no longer
  live, and the promise is resolved unless it was settled before.
\<close>

lemma App_js_onended:
  assumes "k < length (sessions s)" "onended s = Some k"
  shows "animationId (sessions s ! k) = Some h \<Longrightarrow>
           h \<notin> fst ` set (frameRequests (step App_js AudioEnded s))"
    and "avatarCanvas (step App_js AudioEnded s) =
           avatarCanvas (page_after (drawAvatar App_js 0 s))"
    and "audioUrl (sessions s ! k) = Some u \<Longrightarrow>
           u \<notin> fst ` set (objectURLs (step App_js AudioEnded s))"
    and "promise (sessions (step App_js AudioEnded s) ! k) =
           (if promise (sessions s ! k) = Pending then Resolved else promise (sessions s ! k))"
    and "\<not> speaking (step App_js AudioEnded s)"
proof -
  let ?s2 = "cancelAnimationFrame (animationId (sessions s ! k)) s\<lparr>speaking := False\<rparr>"
  let ?s3 = "page_after (drawAvatar App_js 0 ?s2)"
  have st: "step App_js AudioEnded s =
      resolve k (revokeObjectURL (audioUrl (sessions s ! k)) ?s3)"
    using assms(2)
    by (simp add: onended_alt Let_def drawAvatar_keeps cancelAnimationFrame_keeps)
  show "animationId (sessions s ! k) = Some h \<Longrightarrow>
      h \<notin> fst ` set (frameRequests (step App_js AudioEnded s))"
    unfolding st
    by (auto simp: resolve_keeps revokeObjectURL_keeps drawAvatar_keeps
        cancelAnimationFrame_def)
  show "avatarCanvas (step App_js AudioEnded s) =
      avatarCanvas (page_after (drawAvatar App_js 0 s))"
    unfolding st
    by (simp add: resolve_keeps revokeObjectURL_keeps)
      (rule drawAvatar_canvas_cong, simp_all add: cancelAnimationFrame_keeps)
  show "audioUrl (sessions s ! k) = Some u \<Longrightarrow>
      u \<notin> fst ` set (objectURLs (step App_js AudioEnded s))"
    unfolding st by (auto simp: resolve_keeps revokeObjectURL_def)
  show "promise (sessions (step App_js AudioEnded s) ! k) =
      (if promise (sessions s ! k) = Pending then Resolved else promise (sessions s ! k))"
    using assms(1) unfolding st
    by (subst resolve_settles)
      (simp_all add: revokeObjectURL_keeps drawAvatar_keeps cancelAnimationFrame_keeps)
  show "\<not> speaking (step App_js AudioEnded s)"
    unfolding st
    by (simp add: resolve_keeps revokeObjectURL_keeps drawAvatar_keeps)
qed

text \<open>The \<^verbatim>\<open>error\<close> handler of \<^verbatim>\<open>app.js\<close>: the same, but the canvas is left as it is.\<close>

lemma App_js_onerror:
  assumes "k < length (sessions s)" "onerror s = Some k"
  shows "animationId (sessions s ! k) = Some h \<Longrightarrow>
           h \<notin> fst ` set (frameRequests (step App_js AudioError s))"
    and "avatarCanvas (step App_js AudioError s) = avatarCanvas s"
    and "audioUrl (sessions s ! k) = Some u \<Longrightarrow>
           u \<notin> fst ` set (objectURLs (step App_js AudioError s))"
    and "promise (sessions (step App_js AudioError s) ! k) =
           (if promise (sessions s ! k) = Pending then Resolved else promise (sessions s ! k))"
proof -
  let ?s2 = "cancelAnimationFrame (animationId (sessions s ! k)) s\<lparr>speaking := False\<rparr>"
  have st: "step App_js AudioError s =
      resolve k (revokeObjectURL (audioUrl (sessions s ! k)) ?s2)"
    using assms(2)
    by (simp add: audioPlayer_onerror_def Let_def cancelAnimationFrame_keeps)
  show "animationId (sessions s ! k) = Some h \<Longrightarrow>
      h \<notin> fst ` set (frameRequests (step App_js AudioError s))"
    unfolding st by (auto simp: resolve_keeps revokeObjectURL_keeps cancelAnimationFrame_def)
  show "avatarCanvas (step App_js AudioError s) = avatarCanvas s"
    unfolding st by (simp add: resolve_keeps revokeObjectURL_keeps cancelAnimationFrame_keeps)
  show "audioUrl (sessions s ! k) = Some u \<Longrightarrow>
      u \<notin> fst ` set (objectURLs (step App_js AudioError s))"
    unfolding st by (auto simp: resolve_keeps revokeObjectURL_def)
  show "promise (sessions (step App_js AudioError s) ! k) =
      (if promise (sessions s ! k) = Pending then Resolved else promise (sessions s ! k))"
    using assms(1) unfolding st
    by (subst resolve_settles) (simp_all add: revokeObjectURL_keeps cancelAnimationFrame_keeps)
qed

lemma settles_forward_same:
  "sessions s' = sessions s \<Longrightarrow> settles_forward k s s'"
  by (simp add: settles_forward_def)

lemma settles_forward_trans:
  "settles_forward k s s' \<Longrightarrow> settles_forward k s' s'' \<Longrightarrow> settles_forward k s s''"
  by (auto simp: settles_forward_def)

lemma settles_forward_animateLipSync:
  "k < length (sessions s) \<Longrightarrow> settles_forward k s (animateLipSync v k' bins s)"
  by (cases "k = k'")
    (simp_all add: settles_forward_def animateLipSync_alt requestAnimationFrame_def Let_def
      drawAvatar_keeps)

lemma settles_forward_run_frame_callbacks:
  "k < length (sessions s) \<Longrightarrow> settles_forward k s (run_frame_callbacks v bins hs s)"
proof (induction hs arbitrary: s)
  case Nil
  then show ?case by (simp add: settles_forward_def)
next
  case (Cons h hs)
  show ?case
  proof (cases "map_of (frameRequests s) h")
    case None
    then show ?thesis using Cons by simp
  next
    case (Some k')
    let ?s1 = "s\<lparr>frameRequests := filter (\<lambda>(h', k'). h' \<noteq> h) (frameRequests s)\<rparr>"
    have a: "settles_forward k s (animateLipSync v k' bins ?s1)"
      using settles_forward_animateLipSync [of k ?s1 v k' bins] Cons.prems
      by (simp add: settles_forward_def)
    then have "k < length (sessions (animateLipSync v k' bins ?s1))"
      using Cons.prems by (simp add: settles_forward_def)
    then have "settles_forward k (animateLipSync v k' bins ?s1)
        (run_frame_callbacks v bins hs (animateLipSync v k' bins ?s1))"
      by (rule Cons.IH)
    then have "settles_forward k s
        (run_frame_callbacks v bins hs (animateLipSync v k' bins ?s1))"
      by (rule settles_forward_trans [OF a])
    then show ?thesis
      using Some by simp
  qed
qed

lemma settles_forward_resolve:
  "k < length (sessions s) \<Longrightarrow> sessions s' = sessions s \<Longrightarrow>
   settles_forward k s (resolve k' s')"
  using promise_resolve [of k s' k'] by (simp add: settles_forward_def)

lemma settles_forward_playAudioWithLipSync:
  "k < length (sessions s) \<Longrightarrow> settles_forward k s (playAudioWithLipSync v b susp s)"
  by (auto simp: settles_forward_def playAudioWithLipSync_def add_session_def after_resume_def
      start_playback_def createObjectURL_def Let_def nth_append
      split: sum.splits variant.splits)

text \<open>
  Whatever the event, in both variants, the promise of a call is afterwards what it was
  before, or it was pending and is now resolved: a settled promise stays as it is, and no
  event rejects a promise.
\<close>

lemma settles_forward_step:
  assumes "k < length (sessions s)"
  shows "settles_forward k s (step v e s)"
proof (cases e)
  case (ModelsLoaded b)
  then show ?thesis
    by (simp add: settles_forward_same loadFaceApiModels_playback)
next
  case (AvatarChange u)
  then show ?thesis
    by (simp add: settles_forward_same avatarInput_change_playback)
next
  case (ChatSubmit m r susp)
  obtain s' a where c: "chatForm_submit m r s = (s', a)"
    by (cases "chatForm_submit m r s")
  have s': "sessions s' = sessions s"
    using chatForm_submit_playback(1) [of m r s] by (simp add: c)
  show ?thesis
  proof (cases a)
    case None
    then show ?thesis by (simp add: ChatSubmit c settles_forward_same s')
  next
    case (Some b)
    have "settles_forward k s' (playAudioWithLipSync v b susp s')"
      using assms by (simp add: settles_forward_playAudioWithLipSync s')
    then show ?thesis
      by (simp add: ChatSubmit c Some settles_forward_def s')
  qed
next
  case (PlayAudio b susp)
  then show ?thesis
    using assms by (simp add: settles_forward_playAudioWithLipSync)
next
  case (ResumeFulfilled k')
  then show ?thesis
    using assms
    by (cases "k = k'") (simp_all add: settles_forward_def after_resume_def start_playback_def)
next
  case (AudioPlay bins)
  then show ?thesis
    using assms
    by (simp add: settles_forward_animateLipSync settles_forward_same split: option.splits)
next
  case AudioEnded
  show ?thesis
  proof (cases "onended s")
    case None
    then show ?thesis by (simp add: AudioEnded settles_forward_same)
  next
    case (Some k')
    show ?thesis
      using assms
      by (cases v)
        (simp_all add: AudioEnded Some onended_alt Let_def settles_forward_resolve
          revokeObjectURL_keeps drawAvatar_keeps cancelAnimationFrame_keeps)
  qed
next
  case AudioError
  show ?thesis
  proof (cases "onerror s")
    case None
    then show ?thesis by (simp add: AudioError settles_forward_same)
  next
    case (Some k')
    show ?thesis
      using assms
      by (cases v)
        (simp_all add: AudioError Some audioPlayer_onerror_def Let_def settles_forward_resolve
          revokeObjectURL_keeps cancelAnimationFrame_keeps)
  qed
next
  case (PlayRejected k')
  then show ?thesis
    using assms
    by (simp add: play_catch_def settles_forward_resolve settles_forward_same)
next
  case (AnimationFrame bins)
  then show ?thesis
    using assms by (simp add: settles_forward_run_frame_callbacks)
qed

lemma settles_forward_run:
  "k < length (sessions s) \<Longrightarrow> settles_forward k s (run v evs s)"
proof (induction evs arbitrary: s)
  case Nil
  then show ?case by (simp add: settles_forward_def)
next
  case (Cons e evs)
  have a: "settles_forward k s (step v e s)"
    by (rule settles_forward_step [OF Cons.prems])
  then have "k < length (sessions (step v e s))"
    using Cons.prems by (simp add: settles_forward_def)
  then have "settles_forward k (step v e s) (run v evs (step v e s))"
    by (rule Cons.IH)
  then have "settles_forward k s (run v evs (step v e s))"
    by (rule settles_forward_trans [OF a])
  then show ?case by simp
qed

lemma run_frame_callbacks_objectURLs:
  "objectURLs (run_frame_callbacks v bins hs s) = objectURLs s"
  by (induction hs arbitrary: s) (simp_all add: animateLipSync_keeps split: option.splits)

lemma playAudioWithLipSync_objectURLs:
  "set (objectURLs s) \<subseteq> set (objectURLs (playAudioWithLipSync v b susp s))"
  by (auto simp: playAudioWithLipSync_def add_session_def after_resume_def start_playback_def
      createObjectURL_def Let_def split: sum.splits variant.splits)

lemma avatarInput_change_objectURLs:
  "set (objectURLs s) \<subseteq> set (objectURLs (avatarInput_change v u s))"
proof (cases "\<exists>bytes w h det. u = File bytes (Loaded w h (Face det)) \<and> isModelLoaded s")
  case True
  then show ?thesis
    by (auto simp: avatarInput_change_detected setAvatarStatus_def drawAvatar_keeps)
next
  case False
  then show ?thesis
    by (auto simp: avatarInput_change_def setAvatarStatus_def createObjectURL_def Let_def
        split: upload.splits load_result.splits detect_result.splits)
qed

text \<open>In \<^verbatim>\<open>part_000\<close> no event takes an object URL out of the live ones.\<close>

lemma Part_000_step_objectURLs:
  "set (objectURLs s) \<subseteq> set (objectURLs (step Part_000 e s))"
proof (cases e)
  case (ModelsLoaded b)
  then show ?thesis by (simp add: loadFaceApiModels_def setAvatarStatus_def Let_def)
next
  case (AvatarChange u)
  then show ?thesis by (simp add: avatarInput_change_objectURLs)
next
  case (ChatSubmit m r susp)
  obtain s' a where c: "chatForm_submit m r s = (s', a)"
    by (cases "chatForm_submit m r s")
  then have "objectURLs s' = objectURLs s"
    by (auto simp: chatForm_submit_def Let_def split: if_splits chat_response.splits)
  then show ?thesis
    using playAudioWithLipSync_objectURLs [of s' Part_000 _ susp]
    by (cases a) (simp_all add: ChatSubmit c)
next
  case (PlayAudio b susp)
  then show ?thesis by (simp add: playAudioWithLipSync_objectURLs)
next
  case (ResumeFulfilled k)
  then show ?thesis by (simp add: after_resume_def start_playback_def)
next
  case (AudioPlay bins)
  then show ?thesis by (simp add: animateLipSync_keeps split: option.splits)
next
  case AudioEnded
  then show ?thesis
    by (simp add: onended_alt Let_def resolve_keeps drawAvatar_keeps cancelAnimationFrame_keeps
        split: option.splits)
next
  case AudioError
  then show ?thesis
    by (simp add: audioPlayer_onerror_def Let_def resolve_keeps cancelAnimationFrame_keeps
        split: option.splits)
next
  case (PlayRejected k)
  then show ?thesis by (simp add: play_catch_def resolve_keeps)
next
  case (AnimationFrame bins)
  then show ?thesis by (simp add: run_frame_callbacks_objectURLs)
qed

lemma Part_000_run_objectURLs:
  "x \<in> set (objectURLs s) \<Longrightarrow> x \<in> set (objectURLs (run Part_000 evs s))"
proof (induction evs arbitrary: s)
  case Nil
  then show ?case by simp
next
  case (Cons e evs)
  then have "x \<in> set (objectURLs (step Part_000 e s))"
    using Part_000_step_objectURLs [of s e] by blast
  then show ?case
    using Cons.IH by simp
qed

lemma example_session_Part_000:
  "run Part_000 [PlayAudio ''AAAA'' False, AudioPlay (\<lambda>_. 100), AnimationFrame (\<lambda>_. 100)]
     example_page =
   example_page\<lparr>avatarCanvas :=
       \<lparr>canvas_width = 200, canvas_height = 200,
        painted = [DrawImage example_image 50 50 200 200 0 0 200 200,
                   FillEllipse (7 / 10) ''#1a0a0a'' 100 125 24 20]\<rparr>,
     speaking := True, audioPlayer_src := Some 1, audioPlayer_connected := True,
     onplay := Some 0, onended := Some 0, onerror := Some 0,
     objectURLs := [(0, example_file), (1, [0, 0, 0])], nextURL := 2,
     frameRequests := [(2, 0)], nextHandle := 3,
     sessions := [\<lparr>promise = Pending, animationId = Some 2, audioUrl = Some 1,
                    progress = Started\<rparr>]\<rparr>"
  by (simp add: playAudioWithLipSync_def add_session_def start_playback_def
      createObjectURL_def Let_def animateLipSync_def requestAnimationFrame_def
      example_payload initial_page_def example_page_eq drawAvatar_def
      speakingIntensity_const crop_region_eq drawImage_def example_detection_def
      example_mouth_def example_image_def)

lemma example_session_App_js:
  "run App_js [PlayAudio ''AAAA'' False, AudioPlay (\<lambda>_. 100), AnimationFrame (\<lambda>_. 100)]
     example_page =
   example_page\<lparr>audioContext := True,
     avatarCanvas :=
       \<lparr>canvas_width = 200, canvas_height = 200,
        painted = [DrawImage example_image 50 50 200 200 (- 4) (- 4) 208 208]\<rparr>,
     speaking := True, audioPlayer_src := Some 1, audioPlayer_connected := True,
     onplay := Some 0, onended := Some 0, onerror := Some 0,
     objectURLs := [(0, example_file), (1, [0, 0, 0])], nextURL := 2,
     frameRequests := [(2, 0)], nextHandle := 3,
     sessions := [\<lparr>promise = Pending, animationId = Some 2, audioUrl = Some 1,
                    progress = Started\<rparr>]\<rparr>"
  by (simp add: playAudioWithLipSync_def add_session_def after_resume_def start_playback_def
      createObjectURL_def Let_def animateLipSync_def requestAnimationFrame_def
      example_payload initial_page_def example_page_eq drawAvatar_def
      speakingIntensity_const crop_region_eq drawImage_def example_detection_def
      example_image_def)

lemma example_session_end:
  "run v [PlayAudio ''AAAA'' False, AudioPlay (\<lambda>_. 100), AnimationFrame (\<lambda>_. 100), e]
     example_page =
   step v e (run v [PlayAudio ''AAAA'' False, AudioPlay (\<lambda>_. 100), AnimationFrame (\<lambda>_. 100)]
     example_page)"
  by simp

text \<open>
  C6, at one session on the example page (whose photo has the object URL 0): a call with a
  payload that decodes (it gets the object URL 1), the
  \<^verbatim>\<open>play\<close> event, one display frame with an average energy of 100, then \<^verbatim>\<open>ended\<close> or
  \<^verbatim>\<open>error\<close>. In both variants the request pending after the frame is cancelled, the
  promise is resolved, and the canvas is redrawn at intensity 0 after \<^verbatim>\<open>ended\<close> and left as
  the last frame drew it after \<^verbatim>\<open>error\<close>. The object URL of the call is released in
  \<^verbatim>\<open>app.js\<close>. In \<^verbatim>\<open>part_000\<close> it is still live, and stays live whatever events follow.
\<close>

theorem object_url_kept_in_part_000:
  "objectURLs example_page = [(0, example_file)] \<and>
   objectURLs (run Part_000
     [PlayAudio ''AAAA'' False, AudioPlay (\<lambda>_. 100), AnimationFrame (\<lambda>_. 100), AudioEnded]
     example_page) = [(0, example_file), (1, [0, 0, 0])] \<and>
   objectURLs (run Part_000
     [PlayAudio ''AAAA'' False, AudioPlay (\<lambda>_. 100), AnimationFrame (\<lambda>_. 100), AudioError]
     example_page) = [(0, example_file), (1, [0, 0, 0])] \<and>
   (\<forall>evs. (1, [0, 0, 0]) \<in> set (objectURLs (run Part_000
      (PlayAudio ''AAAA'' False # evs) example_page))) \<and>
   objectURLs (run App_js
     [PlayAudio ''AAAA'' False, AudioPlay (\<lambda>_. 100), AnimationFrame (\<lambda>_. 100), AudioEnded]
     example_page) = [(0, example_file)] \<and>
   objectURLs (run App_js
     [PlayAudio ''AAAA'' False, AudioPlay (\<lambda>_. 100), AnimationFrame (\<lambda>_. 100), AudioError]
     example_page) = [(0, example_file)] \<and>
   map promise (sessions (run Part_000
     [PlayAudio ''AAAA'' False, AudioPlay (\<lambda>_. 100), AnimationFrame (\<lambda>_. 100), AudioEnded]
     example_page)) = [Resolved] \<and>
   map promise (sessions (run Part_000
     [PlayAudio ''AAAA'' False, AudioPlay (\<lambda>_. 100), AnimationFrame (\<lambda>_. 100), AudioError]
     example_page)) = [Resolved] \<and>
   frameRequests (run Part_000
     [PlayAudio ''AAAA'' False, AudioPlay (\<lambda>_. 100), AnimationFrame (\<lambda>_. 100)]
     example_page) = [(2, 0)] \<and>
   frameRequests (run Part_000
     [PlayAudio ''AAAA'' False, AudioPlay (\<lambda>_. 100), AnimationFrame (\<lambda>_. 100), AudioEnded]
     example_page) = [] \<and>
   frameRequests (run Part_000
     [PlayAudio ''AAAA'' False, AudioPlay (\<lambda>_. 100), AnimationFrame (\<lambda>_. 100), AudioError]
     example_page) = [] \<and>
   painted (avatarCanvas (run Part_000
     [PlayAudio ''AAAA'' False, AudioPlay (\<lambda>_. 100), AnimationFrame (\<lambda>_. 100), AudioEnded]
     example_page)) = [DrawImage example_image 50 50 200 200 0 0 200 200] \<and>
   painted (avatarCanvas (run Part_000
     [PlayAudio ''AAAA'' False, AudioPlay (\<lambda>_. 100), AnimationFrame (\<lambda>_. 100), AudioError]
     example_page)) =
     [DrawImage example_image 50 50 200 200 0 0 200 200,
      FillEllipse (7 / 10) ''#1a0a0a'' 100 125 24 20] \<and>
   map promise (sessions (run App_js
     [PlayAudio ''AAAA'' False, AudioPlay (\<lambda>_. 100), AnimationFrame (\<lambda>_. 100), AudioEnded]
     example_page)) = [Resolved] \<and>
   map promise (sessions (run App_js
     [PlayAudio ''AAAA'' False, AudioPlay (\<lambda>_. 100), AnimationFrame (\<lambda>_. 100), AudioError]
     example_page)) = [Resolved] \<and>
   frameRequests (run App_js
     [PlayAudio ''AAAA'' False, AudioPlay (\<lambda>_. 100), AnimationFrame (\<lambda>_. 100)]
     example_page) = [(2, 0)] \<and>
   frameRequests (run App_js
     [PlayAudio ''AAAA'' False, AudioPlay (\<lambda>_. 100), AnimationFrame (\<lambda>_. 100), AudioEnded]
     example_page) = [] \<and>
   frameRequests (run App_js
     [PlayAudio ''AAAA'' False, AudioPlay (\<lambda>_. 100), AnimationFrame (\<lambda>_. 100), AudioError]
     example_page) = [] \<and>
   painted (avatarCanvas (run App_js
     [PlayAudio ''AAAA'' False, AudioPlay (\<lambda>_. 100), AnimationFrame (\<lambda>_. 100), AudioEnded]
     example_page)) = [DrawImage example_image 50 50 200 200 0 0 200 200] \<and>
   painted (avatarCanvas (run App_js
     [PlayAudio ''AAAA'' False, AudioPlay (\<lambda>_. 100), AnimationFrame (\<lambda>_. 100), AudioError]
     example_page)) = [DrawImage example_image 50 50 200 200 (- 4) (- 4) 208 208]"
proof -
  have "(1, [0, 0, 0]) \<in> set (objectURLs (playAudioWithLipSync Part_000 ''AAAA'' False example_page))"
    by (simp add: playAudioWithLipSync_def add_session_def start_playback_def
        createObjectURL_def Let_def example_payload initial_page_def example_page_eq)
  then have "(1, [0, 0, 0]) \<in> set (objectURLs (run Part_000
      (PlayAudio ''AAAA'' False # evs) example_page))" for evs
    using Part_000_run_objectURLs by simp
  then show ?thesis
    unfolding example_session_end example_session_Part_000 example_session_App_js
    by (simp add: audioPlayer_onended_def audioPlayer_onerror_def cancelAnimationFrame_def
        resolve_def revokeObjectURL_def Let_def example_page_eq initial_page_def
        drawAvatar_def crop_region_eq drawImage_def example_detection_def example_image_def)
qed

section \<open>The failures the code does handle\<close>

text \<open>
  A call with a payload that decodes installs its handlers and leaves its promise pending
  (in \<^verbatim>\<open>app.js\<close> when the audio context is running, in \<^verbatim>\<open>part_000\<close> when the audio element
  has no source node yet); from then on \<^verbatim>\<open>ended\<close>, \<^verbatim>\<open>error\<close> and a rejected \<^verbatim>\<open>play()\<close>
  each settle the promise, in both variants and with or without an avatar.
\<close>

lemma playAudioWithLipSync_installs:
  assumes "atob b = Inr bytes"
    and "v = App_js \<and> \<not> suspended \<or> v = Part_000 \<and> \<not> audioPlayer_connected s"
  shows "onplay (playAudioWithLipSync v b suspended s) = Some (length (sessions s))"
    and "onended (playAudioWithLipSync v b suspended s) = Some (length (sessions s))"
    and "onerror (playAudioWithLipSync v b suspended s) = Some (length (sessions s))"
    and "promise (sessions (playAudioWithLipSync v b suspended s) ! length (sessions s)) = Pending"
    and "progress (sessions (playAudioWithLipSync v b suspended s) ! length (sessions s)) = Started"
  using assms
  by (auto simp: playAudioWithLipSync_def add_session_def after_resume_def start_playback_def
      createObjectURL_def Let_def)

lemma handled_failures_settle:
  assumes "k < length (sessions s)"
  shows "onended s = Some k \<Longrightarrow> promise (sessions (step v AudioEnded s) ! k) \<noteq> Pending"
    and "onerror s = Some k \<Longrightarrow> promise (sessions (step v AudioError s) ! k) \<noteq> Pending"
    and "progress (sessions s ! k) = Started \<Longrightarrow>
         promise (sessions (step v (PlayRejected k) s) ! k) \<noteq> Pending"
proof -
  have r: "promise (sessions (resolve k s') ! k) \<noteq> Pending" if "sessions s' = sessions s" for s'
    using assms that by (simp add: resolve_def)
  show "onended s = Some k \<Longrightarrow> promise (sessions (step v AudioEnded s) ! k) \<noteq> Pending"
    by (cases v)
      (simp_all add: onended_alt Let_def r revokeObjectURL_keeps drawAvatar_keeps
        cancelAnimationFrame_keeps)
  show "onerror s = Some k \<Longrightarrow> promise (sessions (step v AudioError s) ! k) \<noteq> Pending"
    by (cases v)
      (simp_all add: audioPlayer_onerror_def Let_def r revokeObjectURL_keeps
        cancelAnimationFrame_keeps)
  show "progress (sessions s ! k) = Started \<Longrightarrow>
      promise (sessions (step v (PlayRejected k) s) ! k) \<noteq> Pending"
    using assms by (simp add: play_catch_def r)
qed

end
